theory Spec2Isabelle
  imports Main "HOL-Library.Word" "HOL-Library.Sublist"
begin

section \<open>Data model of the certificates package\<close>

text \<open>
  The package \<^verbatim>\<open>certificates\<close> keeps a two-tier PKI in Kubernetes secrets. Its functions
  are translated one by one. What the functions call but do not define (Go's standard
  library, the Kubernetes client, the \<^verbatim>\<open>config\<close> package) is collected in the record
  \<open>env\<close> and stays a parameter of every definition.
\<close>

type_synonym bytes = "8 word list"

text \<open>A Go run-time panic, as opposed to an \<^verbatim>\<open>error\<close> value that a function returns.\<close>

datatype go_panic = NilPointerDereference | IndexOutOfRange | SliceBoundsOutOfRange

datatype error =
    NotFound | AlreadyExists | StoreError | OwnerReferenceError
  | RandError | KeyGenError | SignError | ParseError | HostError

datatype 'a outcome = Returns 'a | Panics go_panic

subsection \<open>Go slices\<close>

text \<open>
  A slice is a window on a backing array: \<open>backing\<close> is the array from the slice's first
  element up to its capacity, \<open>len\<close> the number of elements the slice shows. A nil slice
  is \<open>None\<close> of the option type.
\<close>

record 'a slice =
  backing :: "'a list"
  len :: nat

definition elements :: "'a slice \<Rightarrow> 'a list" where
  "elements s = take (len s) (backing s)"

definition cap :: "'a slice \<Rightarrow> nat" where
  "cap s = length (backing s)"

text \<open>\<^verbatim>\<open>s[:n]\<close>: allowed up to the capacity, a panic beyond it.\<close>

definition reslice :: "'a slice \<Rightarrow> nat \<Rightarrow> 'a slice outcome" where
  "reslice s n = (if n \<le> cap s then Returns (s\<lparr>len := n\<rparr>) else Panics SliceBoundsOutOfRange)"

text \<open>
  \<^verbatim>\<open>append(s, xs...)\<close>: in place when the capacity suffices (the elements behind the
  slice are overwritten), on a fresh array otherwise. The elements \<open>xs\<close> are read before
  anything is written, as Go's overlapping copy does. The spare capacity of a fresh array
  is not observable here and is left out.
\<close>

definition append_slice :: "'a slice \<Rightarrow> 'a list \<Rightarrow> 'a slice" where
  "append_slice s xs =
     (if len s + length xs \<le> cap s
      then \<lparr>backing = take (len s) (backing s) @ xs @ drop (len s + length xs) (backing s),
            len = len s + length xs\<rparr>
      else \<lparr>backing = elements s @ xs, len = len s + length xs\<rparr>)"

text \<open>\<^verbatim>\<open>s[0] = v\<close>: a panic on a slice of length 0.\<close>

definition set_first :: "'a slice \<Rightarrow> 'a \<Rightarrow> 'a slice outcome" where
  "set_first s v =
     (if 0 < len s then Returns (s\<lparr>backing := (backing s)[0 := v]\<rparr>) else Panics IndexOutOfRange)"

subsection \<open>Certificates, keys, PEM blocks\<close>

datatype key_usage = KeyUsageDigitalSignature | KeyUsageKeyEncipherment | KeyUsageCertSign

datatype ext_key_usage = ExtKeyUsageServerAuth | ExtKeyUsageClientAuth

record certificate =
  SerialNumber :: nat
  Organization :: "string list"
  Country :: "string list"
  CommonName :: string
  OrganizationalUnit :: "string list"
  NotBefore :: int
  NotAfter :: int
  IsCA :: bool
  KeyUsage :: "key_usage list"
  ExtKeyUsage :: "ext_key_usage list"
  BasicConstraintsValid :: bool
  DNSNames :: "string list"
  IPAddresses :: "bytes list"

datatype private_key = PrivateKey nat

datatype public_key = PublicKeyOf nat

fun PublicKey :: "private_key \<Rightarrow> public_key" where
  "PublicKey (PrivateKey k) = PublicKeyOf k"

text \<open>\<open>Bytes = None\<close> is Go's nil slice, which the drift check tests for.\<close>

record pem_block =
  Type :: string
  Bytes :: "bytes option"

definition go_bytes :: "bytes option \<Rightarrow> bytes" where
  "go_bytes b = (case b of None \<Rightarrow> [] | Some x \<Rightarrow> x)"

subsection \<open>Secrets and the store\<close>

text \<open>
  A secret carries the three blobs \<^verbatim>\<open>ca.crt\<close>, \<^verbatim>\<open>tls.crt\<close> and \<^verbatim>\<open>tls.key\<close> of its
  data map (a missing key reads as the empty byte string, as in Go), its labels and its
  owner references. The name is the key under which the store holds the secret.
\<close>

record secret =
  Labels :: "(string \<times> string) list"
  OwnerReferences :: "string list"
  ca_crt :: bytes
  tls_crt :: bytes
  tls_key :: bytes

datatype request = Create string secret | Update string secret

text \<open>
  The world a call runs in: the secrets of the store, every write request issued so far
  (whether it succeeded or not), and the number of readings taken from the random source
  and the clock.
\<close>

record world =
  objects :: "string \<Rightarrow> secret option"
  requests :: "request list"
  ticks :: nat

subsection \<open>What the package calls but does not define\<close>

text \<open>
  \<open>pem_Decode\<close> gives the first block of its input and the number of bytes it consumed:
  the remainder that Go's \<^verbatim>\<open>pem.Decode\<close> returns is the sub-slice of the input behind
  them. The readings of \<^verbatim>\<open>rand.Int\<close>, \<^verbatim>\<open>rsa.GenerateKey\<close> and \<^verbatim>\<open>time.Now\<close> are
  functions of the reading's number. A library call that returns an error is \<open>None\<close>.
  The bundle names, common names, label and duration come from the package
  \<^verbatim>\<open>config\<close>; the duration is Go's \<^verbatim>\<open>time.Duration\<close>, a signed 64-bit count of
  nanoseconds whose arithmetic wraps, and an instant is a count of nanoseconds;
  \<open>GetObsAPIHost\<close> is its route lookup. The three fault fields let the store refuse a
  request.
\<close>

record env =
  pem_Decode :: "bytes \<Rightarrow> pem_block option \<times> nat"
  pem_Encode :: "pem_block \<Rightarrow> bytes"
  x509_ParseCertificate :: "bytes \<Rightarrow> certificate option"
  x509_ParseCertificates :: "bytes \<Rightarrow> certificate list option"
  x509_ParsePKCS1PrivateKey :: "bytes \<Rightarrow> private_key option"
  x509_MarshalPKCS1PrivateKey :: "private_key \<Rightarrow> bytes"
  x509_CreateCertificate ::
    "certificate \<Rightarrow> certificate \<Rightarrow> public_key \<Rightarrow> private_key \<Rightarrow> bytes option"
  rand_Int :: "nat \<Rightarrow> nat \<Rightarrow> nat option"
  rsa_GenerateKey :: "nat \<Rightarrow> private_key option"
  time_Now :: "nat \<Rightarrow> int"
  GetCertDuration :: "64 word"
  ServerCACerts :: string
  ServerCerts :: string
  ServerCertCN :: string
  ClientCACerts :: string
  GrafanaCerts :: string
  GrafanaCN :: string
  BackupLabelName :: string
  BackupLabelValue :: string
  GetObsAPISvc :: string
  GetObsAPIHost :: "error + string"
  getFault :: "string \<Rightarrow> error option"
  createFault :: "string \<Rightarrow> error option"
  updateFault :: "string \<Rightarrow> error option"
  ownerReferenceFault :: "error option"

definition serverCACertifcateCN :: string where
  "serverCACertifcateCN = ''observability-server-ca-certificate''"

definition clientCACertificateCN :: string where
  "clientCACertificateCN = ''observability-client-ca-certificate''"

definition serialNumberLimit :: nat where
  "serialNumberLimit = 2 ^ 128"

text \<open>The client: \<^verbatim>\<open>c.Get\<close>, \<^verbatim>\<open>c.Create\<close>, \<^verbatim>\<open>c.Update\<close> on the store.\<close>

definition client_Get :: "env \<Rightarrow> world \<Rightarrow> string \<Rightarrow> error + secret" where
  "client_Get E w name =
     (case getFault E name of
        Some e \<Rightarrow> Inl e
      | None \<Rightarrow> (case objects w name of None \<Rightarrow> Inl NotFound | Some s \<Rightarrow> Inr s))"

definition client_Create :: "env \<Rightarrow> world \<Rightarrow> string \<Rightarrow> secret \<Rightarrow> error option \<times> world" where
  "client_Create E w name s =
     (let w' = w\<lparr>requests := requests w @ [Create name s]\<rparr> in
      case createFault E name of
        Some e \<Rightarrow> (Some e, w')
      | None \<Rightarrow>
          (case objects w name of
             Some old \<Rightarrow> (Some AlreadyExists, w')
           | None \<Rightarrow> (None, w'\<lparr>objects := (objects w)(name \<mapsto> s)\<rparr>)))"

definition client_Update :: "env \<Rightarrow> world \<Rightarrow> string \<Rightarrow> secret \<Rightarrow> error option \<times> world" where
  "client_Update E w name s =
     (let w' = w\<lparr>requests := requests w @ [Update name s]\<rparr> in
      case updateFault E name of
        Some e \<Rightarrow> (Some e, w')
      | None \<Rightarrow>
          (case objects w name of
             None \<Rightarrow> (Some NotFound, w')
           | Some old \<Rightarrow> (None, w'\<lparr>objects := (objects w)(name \<mapsto> s)\<rparr>)))"

text \<open>\<^verbatim>\<open>controllerutil.SetControllerReference\<close>: records the owner, or fails.\<close>

definition SetControllerReference :: "env \<Rightarrow> string \<Rightarrow> secret \<Rightarrow> error + secret" where
  "SetControllerReference E mco s =
     (case ownerReferenceFault E of
        Some e \<Rightarrow> Inl e
      | None \<Rightarrow> Inr (s\<lparr>OwnerReferences := [mco]\<rparr>))"

text \<open>
  Modelled from the spec: \<^verbatim>\<open>mcoutil.AddBackupLabelToSecretObj\<close> is not among the sources.
  The spec calls it tagging the bundle for backup bookkeeping on the unchanged path: a
  bundle without the backup label gets it and is written back, a tagged one is left alone.
\<close>

definition AddBackupLabelToSecretObj ::
  "env \<Rightarrow> world \<Rightarrow> string \<Rightarrow> secret \<Rightarrow> error option \<times> world" where
  "AddBackupLabelToSecretObj E w name s =
     (case map_of (Labels s) (BackupLabelName E) of
        Some v \<Rightarrow> (None, w)
      | None \<Rightarrow>
          client_Update E w name
            (s\<lparr>Labels := (BackupLabelName E, BackupLabelValue E) # Labels s\<rparr>))"

section \<open>The certificate factory\<close>

text \<open>\<^verbatim>\<open>pemEncode\<close>: an encoding error is only logged, the buffers are returned as they are.\<close>

definition pemEncode :: "env \<Rightarrow> bytes \<Rightarrow> bytes \<Rightarrow> bytes \<times> bytes" where
  "pemEncode E cert key =
     (pem_Encode E \<lparr>Type = ''CERTIFICATE'', Bytes = Some cert\<rparr>,
      pem_Encode E \<lparr>Type = ''RSA PRIVATE KEY'', Bytes = Some key\<rparr>)"

text \<open>
  \<^verbatim>\<open>createCACertificate\<close>. Readings: the serial number at \<open>ticks w\<close>, the two clock
  readings behind it, then the key when one is generated.
\<close>

definition caTemplate :: "env \<Rightarrow> nat \<Rightarrow> nat \<Rightarrow> string \<Rightarrow> certificate" where
  "caTemplate E t sn cn =
     \<lparr>SerialNumber = sn, Organization = [''Red Hat, Inc.''], Country = [''US''],
      CommonName = cn, OrganizationalUnit = [],
      NotBefore = time_Now E (t + 1), NotAfter = time_Now E (t + 2) + sint (GetCertDuration E * 5),
      IsCA = True,
      KeyUsage = [KeyUsageDigitalSignature, KeyUsageKeyEncipherment, KeyUsageCertSign],
      ExtKeyUsage = [], BasicConstraintsValid = True, DNSNames = [], IPAddresses = []\<rparr>"

definition createCACertificate ::
  "env \<Rightarrow> world \<Rightarrow> string \<Rightarrow> private_key option \<Rightarrow> (error + bytes \<times> bytes) \<times> world" where
  "createCACertificate E w cn caKey =
     (let t = ticks w in
      case rand_Int E serialNumberLimit t of
        None \<Rightarrow> (Inl RandError, w\<lparr>ticks := t + 1\<rparr>)
      | Some sn \<Rightarrow>
          (let ca = caTemplate E t sn cn;
               generated = (case caKey of None \<Rightarrow> rsa_GenerateKey E (t + 3) | Some k \<Rightarrow> Some k);
               w' = w\<lparr>ticks := (case caKey of None \<Rightarrow> t + 4 | Some k \<Rightarrow> t + 3)\<rparr>
           in case generated of
                None \<Rightarrow> (Inl KeyGenError, w')
              | Some k \<Rightarrow>
                  (case x509_CreateCertificate E ca ca (PublicKey k) k of
                     None \<Rightarrow> (Inl SignError, w')
                   | Some caBytes \<Rightarrow> (Inr (x509_MarshalPKCS1PrivateKey E k, caBytes), w'))))"

text \<open>
  The DNS names of a leaf, lines 335 to 341 of \<^verbatim>\<open>createCertificate\<close>:
  \<^verbatim>\<open>dns = append(dns[:1], dns[0:]...); dns[0] = cn\<close> for a non-nil list, \<^verbatim>\<open>[]string{cn}\<close>
  for nil.
\<close>

definition createCertificate_dnsNames :: "string \<Rightarrow> string slice option \<Rightarrow> string list outcome" where
  "createCertificate_dnsNames cn dns =
     (case dns of
        None \<Rightarrow> Returns [cn]
      | Some s \<Rightarrow>
          (case reslice s 1 of
             Panics p \<Rightarrow> Panics p
           | Returns s1 \<Rightarrow>
               (case set_first (append_slice s1 (elements s)) cn of
                  Panics p \<Rightarrow> Panics p
                | Returns s2 \<Rightarrow> Returns (elements s2))))"

definition leafTemplate ::
  "env \<Rightarrow> nat \<Rightarrow> nat \<Rightarrow> bool \<Rightarrow> string \<Rightarrow> string list option \<Rightarrow> string list \<Rightarrow>
   bytes list option \<Rightarrow> certificate" where
  "leafTemplate E t sn isServer cn ou names ips =
     \<lparr>SerialNumber = sn, Organization = [''Red Hat, Inc.''], Country = [''US''],
      CommonName = cn,
      OrganizationalUnit = (case ou of None \<Rightarrow> [] | Some u \<Rightarrow> u),
      NotBefore = time_Now E (t + 1), NotAfter = time_Now E (t + 2) + sint (GetCertDuration E),
      IsCA = False,
      KeyUsage = [KeyUsageDigitalSignature, KeyUsageKeyEncipherment],
      ExtKeyUsage = (if \<not> isServer then [ExtKeyUsageClientAuth] else [ExtKeyUsageServerAuth]),
      BasicConstraintsValid = False, DNSNames = names,
      IPAddresses = (case ips of None \<Rightarrow> [] | Some i \<Rightarrow> i)\<rparr>"

definition createCertificate ::
  "env \<Rightarrow> world \<Rightarrow> bool \<Rightarrow> string \<Rightarrow> string list option \<Rightarrow> string slice option \<Rightarrow>
   bytes list option \<Rightarrow> certificate \<Rightarrow> private_key \<Rightarrow> private_key option \<Rightarrow>
   (error + bytes \<times> bytes) outcome \<times> world" where
  "createCertificate E w isServer cn ou dns ips caCert caKey key =
     (let t = ticks w in
      case rand_Int E serialNumberLimit t of
        None \<Rightarrow> (Returns (Inl RandError), w\<lparr>ticks := t + 1\<rparr>)
      | Some sn \<Rightarrow>
          (case createCertificate_dnsNames cn dns of
             Panics p \<Rightarrow> (Panics p, w\<lparr>ticks := t + 3\<rparr>)
           | Returns names \<Rightarrow>
               (let cert = leafTemplate E t sn isServer cn ou names ips;
                    generated = (case key of None \<Rightarrow> rsa_GenerateKey E (t + 3) | Some k \<Rightarrow> Some k);
                    w' = w\<lparr>ticks := (case key of None \<Rightarrow> t + 4 | Some k \<Rightarrow> t + 3)\<rparr>
                in case generated of
                     None \<Rightarrow> (Returns (Inl KeyGenError), w')
                   | Some k \<Rightarrow>
                       (case x509_CreateCertificate E cert caCert (PublicKey k) caKey of
                          None \<Rightarrow> (Returns (Inl SignError), w')
                        | Some caBytes \<Rightarrow>
                            (Returns (Inr (x509_MarshalPKCS1PrivateKey E k, caBytes)), w')))))"

section \<open>The CA manager\<close>

text \<open>
  \<^verbatim>\<open>createCASecret\<close> returns \<^verbatim>\<open>(error, bool)\<close>. \<open>mco\<close> is the owner the secret is bound
  to, \<open>None\<close> for a nil pointer. On the renewal path \<^verbatim>\<open>block.Bytes\<close> is read without
  a nil check, so a stored key that is no PEM block is a panic.
\<close>

definition createCASecret ::
  "env \<Rightarrow> world \<Rightarrow> string option \<Rightarrow> bool \<Rightarrow> string \<Rightarrow> string \<Rightarrow>
   (error option \<times> bool) outcome \<times> world" where
  "createCASecret E w mco isRenew name cn =
     (case client_Get E w name of
        Inl err \<Rightarrow>
          (if err \<noteq> NotFound then (Returns (Some err, False), w)
           else
             (case createCACertificate E w cn None of
                (Inl e, w1) \<Rightarrow> (Returns (Some e, False), w1)
              | (Inr (key, cert), w1) \<Rightarrow>
                  (let (certPEM, keyPEM) = pemEncode E cert key;
                       caSecret = \<lparr>Labels = [(BackupLabelName E, BackupLabelValue E)],
                                   OwnerReferences = [],
                                   ca_crt = certPEM, tls_crt = certPEM, tls_key = keyPEM\<rparr>
                   in case (case mco of
                              None \<Rightarrow> Inr caSecret
                            | Some m \<Rightarrow> SetControllerReference E m caSecret) of
                        Inl e \<Rightarrow> (Returns (Some e, False), w1)
                      | Inr s \<Rightarrow>
                          (case client_Create E w1 name s of
                             (Some e, w2) \<Rightarrow> (Returns (Some e, False), w2)
                           | (None, w2) \<Rightarrow> (Returns (None, True), w2)))))
      | Inr caSecret \<Rightarrow>
          (if \<not> isRenew then
             (case AddBackupLabelToSecretObj E w name caSecret of
                (Some e, w1) \<Rightarrow> (Returns (Some e, False), w1)
              | (None, w1) \<Rightarrow> (Returns (None, False), w1))
           else
             (case fst (pem_Decode E (tls_key caSecret)) of
                None \<Rightarrow> (Panics NilPointerDereference, w)
              | Some block \<Rightarrow>
                  (let caKey = x509_ParsePKCS1PrivateKey E (go_bytes (Bytes block)) in
                   case createCACertificate E w cn caKey of
                     (Inl e, w1) \<Rightarrow> (Returns (Some e, False), w1)
                   | (Inr (key, cert), w1) \<Rightarrow>
                       (let (certPEM, keyPEM) = pemEncode E cert key;
                            s = caSecret\<lparr>ca_crt := certPEM,
                                          tls_crt := certPEM @ tls_crt caSecret,
                                          tls_key := keyPEM\<rparr>
                        in case client_Update E w1 name s of
                             (Some e, w2) \<Rightarrow> (Returns (Some e, False), w2)
                           | (None, w2) \<Rightarrow> (Returns (None, True), w2))))))"

section \<open>The leaf certificate manager\<close>

text \<open>
  \<^verbatim>\<open>getCA\<close> returns the first certificate of the CA secret's \<^verbatim>\<open>tls.crt\<close>, the CA key,
  and the bytes of \<^verbatim>\<open>tls.crt\<close> up to the end of its first PEM block.
\<close>

definition getCA ::
  "env \<Rightarrow> world \<Rightarrow> bool \<Rightarrow> (error + certificate \<times> private_key \<times> bytes) outcome" where
  "getCA E w isServer =
     (let caCertName = (if \<not> isServer then ClientCACerts E else ServerCACerts E) in
      case client_Get E w caCertName of
        Inl e \<Rightarrow> Returns (Inl e)
      | Inr caSecret \<Rightarrow>
          (let block1 = fst (pem_Decode E (tls_crt caSecret));
               consumed = min (length (tls_crt caSecret)) (snd (pem_Decode E (tls_crt caSecret)));
               caCertBytes = take consumed (tls_crt caSecret)
           in case block1 of
                None \<Rightarrow> Panics NilPointerDereference
              | Some b1 \<Rightarrow>
                  (case x509_ParseCertificates E (go_bytes (Bytes b1)) of
                     None \<Rightarrow> Returns (Inl ParseError)
                   | Some caCerts \<Rightarrow>
                       (case fst (pem_Decode E (tls_key caSecret)) of
                          None \<Rightarrow> Panics NilPointerDereference
                        | Some b2 \<Rightarrow>
                            (case x509_ParsePKCS1PrivateKey E (go_bytes (Bytes b2)) of
                               None \<Rightarrow> Returns (Inl ParseError)
                             | Some caKey \<Rightarrow>
                                 (case caCerts of
                                    [] \<Rightarrow> Panics IndexOutOfRange
                                  | c0 # cs \<Rightarrow> Returns (Inr (c0, caKey, caCertBytes))))))))"

text \<open>
  The loop of the drift check, lines 265 to 270. \<^verbatim>\<open>serverCrt\<close> is nil when the stored
  certificate did not parse, and the loop body reads \<^verbatim>\<open>serverCrt.DNSNames\<close>.
\<close>

fun driftLoop :: "certificate option \<Rightarrow> string list \<Rightarrow> bool \<Rightarrow> bool outcome" where
  "driftLoop serverCrt [] isRenew = Returns isRenew"
| "driftLoop serverCrt (dnsString # rest) isRenew =
     (case serverCrt of
        None \<Rightarrow> Panics NilPointerDereference
      | Some crt \<Rightarrow>
          (if dnsString \<notin> set (DNSNames crt) then Returns True
           else driftLoop serverCrt rest isRenew))"

text \<open>
  Lines 254 to 272: the value of \<^verbatim>\<open>isRenew\<close> behind the drift check. The secret the
  store returns for a name carries that name, so \<^verbatim>\<open>crtSecret.Name\<close> is \<open>name\<close>.
\<close>

definition driftCheck ::
  "env \<Rightarrow> string \<Rightarrow> secret \<Rightarrow> bool \<Rightarrow> string slice option \<Rightarrow> bool outcome" where
  "driftCheck E name crtSecret isRenew dns =
     (if name = ServerCerts E \<and> \<not> isRenew then
        (case fst (pem_Decode E (tls_crt crtSecret)) of
           None \<Rightarrow> Returns isRenew
         | Some block \<Rightarrow>
             (case Bytes block of
                None \<Rightarrow> Returns isRenew
              | Some der \<Rightarrow>
                  (let serverCrt = x509_ParseCertificate E der in
                   driftLoop serverCrt (case dns of None \<Rightarrow> [] | Some s \<Rightarrow> elements s)
                     (if serverCrt = None then True else isRenew))))
      else Returns isRenew)"

definition createCertSecret ::
  "env \<Rightarrow> world \<Rightarrow> string option \<Rightarrow> bool \<Rightarrow> string \<Rightarrow> bool \<Rightarrow> string \<Rightarrow>
   string list option \<Rightarrow> string slice option \<Rightarrow> bytes list option \<Rightarrow>
   error option outcome \<times> world" where
  "createCertSecret E w mco isRenew name isServer cn ou dns ips =
     (case client_Get E w name of
        Inl err \<Rightarrow>
          (if err \<noteq> NotFound then (Returns (Some err), w)
           else
             (case getCA E w isServer of
                Panics p \<Rightarrow> (Panics p, w)
              | Returns (Inl e) \<Rightarrow> (Returns (Some e), w)
              | Returns (Inr (caCert, caKey, caCertBytes)) \<Rightarrow>
                  (case createCertificate E w isServer cn ou dns ips caCert caKey None of
                     (Panics p, w1) \<Rightarrow> (Panics p, w1)
                   | (Returns (Inl e), w1) \<Rightarrow> (Returns (Some e), w1)
                   | (Returns (Inr (key, cert)), w1) \<Rightarrow>
                       (let (certPEM, keyPEM) = pemEncode E cert key;
                            crtSecret = \<lparr>Labels = [(BackupLabelName E, BackupLabelValue E)],
                                         OwnerReferences = [],
                                         ca_crt = caCertBytes, tls_crt = certPEM,
                                         tls_key = keyPEM\<rparr>
                        in case (case mco of
                                   None \<Rightarrow> Inr crtSecret
                                 | Some m \<Rightarrow> SetControllerReference E m crtSecret) of
                             Inl e \<Rightarrow> (Returns (Some e), w1)
                           | Inr s \<Rightarrow>
                               (case client_Create E w1 name s of
                                  (Some e, w2) \<Rightarrow> (Returns (Some e), w2)
                                | (None, w2) \<Rightarrow> (Returns None, w2))))))
      | Inr crtSecret \<Rightarrow>
          (case driftCheck E name crtSecret isRenew dns of
             Panics p \<Rightarrow> (Panics p, w)
           | Returns renew \<Rightarrow>
               (if \<not> renew then
                  (case AddBackupLabelToSecretObj E w name crtSecret of
                     (Some e, w1) \<Rightarrow> (Returns (Some e), w1)
                   | (None, w1) \<Rightarrow> (Returns None, w1))
                else
                  (case getCA E w isServer of
                     Panics p \<Rightarrow> (Panics p, w)
                   | Returns (Inl e) \<Rightarrow> (Returns (Some e), w)
                   | Returns (Inr (caCert, caKey, caCertBytes)) \<Rightarrow>
                       (case fst (pem_Decode E (tls_key crtSecret)) of
                          None \<Rightarrow> (Panics NilPointerDereference, w)
                        | Some block \<Rightarrow>
                            (let crtkey = x509_ParsePKCS1PrivateKey E (go_bytes (Bytes block)) in
                             case createCertificate E w isServer cn ou dns ips caCert caKey crtkey of
                               (Panics p, w1) \<Rightarrow> (Panics p, w1)
                             | (Returns (Inl e), w1) \<Rightarrow> (Returns (Some e), w1)
                             | (Returns (Inr (key, cert)), w1) \<Rightarrow>
                                 (let (certPEM, keyPEM) = pemEncode E cert key;
                                      s = crtSecret\<lparr>ca_crt := caCertBytes,
                                                     tls_crt := certPEM,
                                                     tls_key := keyPEM\<rparr>
                                  in case client_Update E w1 name s of
                                       (Some e, w2) \<Rightarrow> (Returns (Some e), w2)
                                     | (None, w2) \<Rightarrow> (Returns None, w2))))))))"

section \<open>The chain pruner\<close>

text \<open>
  In \<^verbatim>\<open>removeExpiredCA\<close> the slices \<^verbatim>\<open>data\<close>, \<^verbatim>\<open>restData\<close> and
  \<^verbatim>\<open>caSecret.Data["tls.crt"]\<close> start as windows on one array: \<^verbatim>\<open>restData\<close> is
  \<^verbatim>\<open>data[rest_from:]\<close>, and an \<^verbatim>\<open>append\<close> to the output within its capacity writes
  into the array that \<^verbatim>\<open>data\<close> is read from. \<open>out_shared\<close> holds as long as the output
  still lives on that array. \<open>clock\<close> counts the readings of \<^verbatim>\<open>time.Now\<close>.
\<close>

record prune_state =
  data_array :: bytes
  rest_from :: nat
  out :: "8 word slice"
  out_shared :: bool
  clock :: nat

text \<open>One turn of the loop, lines 406 to 422.\<close>

definition removeExpiredCA_step :: "env \<Rightarrow> prune_state \<Rightarrow> prune_state outcome" where
  "removeExpiredCA_step E st =
     (let data = data_array st;
          index = rest_from st;
          restData = drop index data;
          block = fst (pem_Decode E restData);
          next = index + min (length restData) (snd (pem_Decode E restData))
      in case block of
           None \<Rightarrow> Panics NilPointerDereference
         | Some b \<Rightarrow>
             (case (case x509_ParseCertificates E (go_bytes (Bytes b)) of
                      None \<Rightarrow> Returns (True, clock st)
                    | Some certs \<Rightarrow>
                        (case certs of
                           [] \<Rightarrow> Panics IndexOutOfRange
                         | c0 # cs \<Rightarrow> Returns (NotAfter c0 < time_Now E (clock st), clock st + 1))) of
                Panics p \<Rightarrow> Panics p
              | Returns (removeFlag, clock') \<Rightarrow>
                  (if \<not> removeFlag then
                     (let chunk = take (next - index) (drop index data);
                          in_place = (len (out st) + length chunk \<le> cap (out st));
                          out' = append_slice (out st) chunk
                      in Returns
                           \<lparr>data_array = (if out_shared st \<and> in_place then backing out' else data),
                            rest_from = next, out = out',
                            out_shared = (out_shared st \<and> in_place), clock = clock'\<rparr>)
                   else Returns (st\<lparr>rest_from := next, clock := clock'\<rparr>))))"

text \<open>
  The \<^verbatim>\<open>for\<close> loop ends when \<^verbatim>\<open>restData\<close> is empty. It has no other exit, so the
  result is an option: \<open>None\<close> when the loop does not end.
\<close>

partial_function (option) removeExpiredCA_loop :: "env \<Rightarrow> prune_state \<Rightarrow> prune_state outcome option" where
  "removeExpiredCA_loop E st =
     (case removeExpiredCA_step E st of
        Panics p \<Rightarrow> Some (Panics p)
      | Returns st' \<Rightarrow>
          (if rest_from st' = length (data_array st') then Some (Returns st')
           else removeExpiredCA_loop E st'))"

text \<open>Lines 401 to 427: the scan of the chain \<open>data\<close>, the clock at reading \<open>t\<close>.\<close>

definition removeExpiredCA_scan :: "env \<Rightarrow> nat \<Rightarrow> bytes \<Rightarrow> prune_state outcome option" where
  "removeExpiredCA_scan E t data =
     (let first = min (length data) (snd (pem_Decode E data));
          st = \<lparr>data_array = data, rest_from = first,
                out = \<lparr>backing = data, len = first\<rparr>, out_shared = True, clock = t\<rparr>
      in if 0 < length data - first then removeExpiredCA_loop E st else Some (Returns st))"

definition removeExpiredCA :: "env \<Rightarrow> world \<Rightarrow> string \<Rightarrow> (unit outcome \<times> world) option" where
  "removeExpiredCA E w name =
     (case client_Get E w name of
        Inl e \<Rightarrow> Some (Returns (), w)
      | Inr caSecret \<Rightarrow>
          (case removeExpiredCA_scan E (ticks w) (tls_crt caSecret) of
             None \<Rightarrow> None
           | Some (Panics p) \<Rightarrow> Some (Panics p, w)
           | Some (Returns st) \<Rightarrow>
               (let w1 = w\<lparr>ticks := clock st\<rparr> in
                if length (tls_crt caSecret) \<noteq> len (out st)
                then Some (Returns (),
                       snd (client_Update E w1 name (caSecret\<lparr>tls_crt := elements (out st)\<rparr>)))
                else Some (Returns (), w1))))"

section \<open>The orchestrator\<close>

definition getHosts :: "env \<Rightarrow> bool \<Rightarrow> error + string slice" where
  "getHosts E ingressCtlCrdExists =
     (let hosts = \<lparr>backing = [GetObsAPISvc E], len = 1\<rparr> in
      if ingressCtlCrdExists then
        (case GetObsAPIHost E of
           Inl e \<Rightarrow> Inl e
         | Inr url \<Rightarrow> Inr (append_slice hosts [url]))
      else Inr hosts)"

text \<open>
  \<^verbatim>\<open>CreateObservabilityCerts\<close>. It reads \<^verbatim>\<open>mco.Annotations\<close> first, so a nil \<open>mco\<close> is a
  panic; the duration that \<^verbatim>\<open>SetCertDuration\<close> takes from the annotations is
  \<open>GetCertDuration\<close> of the environment.
\<close>

definition CreateObservabilityCerts ::
  "env \<Rightarrow> world \<Rightarrow> string option \<Rightarrow> bool \<Rightarrow> error option outcome \<times> world" where
  "CreateObservabilityCerts E w mco ingressCtlCrdExists =
     (case mco of
        None \<Rightarrow> (Panics NilPointerDereference, w)
      | Some m \<Rightarrow>
          (case createCASecret E w mco False (ServerCACerts E) serverCACertifcateCN of
             (Panics p, w1) \<Rightarrow> (Panics p, w1)
           | (Returns (Some e, u), w1) \<Rightarrow> (Returns (Some e), w1)
           | (Returns (None, serverCrtUpdated), w1) \<Rightarrow>
               (case createCASecret E w1 mco False (ClientCACerts E) clientCACertificateCN of
                  (Panics p, w2) \<Rightarrow> (Panics p, w2)
                | (Returns (Some e, u), w2) \<Rightarrow> (Returns (Some e), w2)
                | (Returns (None, clientCrtUpdated), w2) \<Rightarrow>
                    (case getHosts E ingressCtlCrdExists of
                       Inl e \<Rightarrow> (Returns (Some e), w2)
                     | Inr hosts \<Rightarrow>
                         (case createCertSecret E w2 mco serverCrtUpdated (ServerCerts E) True
                                 (ServerCertCN E) None (Some hosts) None of
                            (Panics p, w3) \<Rightarrow> (Panics p, w3)
                          | (Returns (Some e), w3) \<Rightarrow> (Returns (Some e), w3)
                          | (Returns None, w3) \<Rightarrow>
                              createCertSecret E w3 mco clientCrtUpdated (GrafanaCerts E) False
                                (GrafanaCN E) None None None)))))"

section \<open>Notions used in the statements\<close>

text \<open>
  The names a caller supplies, and the lists the first statement is about: nil, or a
  well-formed slice that shows at least one name.
\<close>

definition supplied_dns :: "string slice option \<Rightarrow> string list" where
  "supplied_dns dns = (case dns of None \<Rightarrow> [] | Some s \<Rightarrow> elements s)"

definition usable_dns :: "string slice option \<Rightarrow> bool" where
  "usable_dns dns = (case dns of None \<Rightarrow> True | Some s \<Rightarrow> len s \<le> cap s \<and> elements s \<noteq> [])"

text \<open>
  The pruning rule in the spec's words, for one block behind the first: it is kept when it
  parses and its \<^verbatim>\<open>NotAfter\<close> is not before the clock's reading, and the clock is read
  only for a block that parsed. \<open>block_verdict\<close> gives the decision and the number of the next
  reading.
\<close>

definition block_verdict :: "env \<Rightarrow> nat \<Rightarrow> pem_block \<Rightarrow> bool \<times> nat" where
  "block_verdict E t b =
     (case x509_ParseCertificates E (go_bytes (Bytes b)) of
        None \<Rightarrow> (False, t)
      | Some certs \<Rightarrow>
          (case certs of
             [] \<Rightarrow> (False, t)
           | c0 # cs \<Rightarrow> (\<not> NotAfter c0 < time_Now E t, t + 1)))"

text \<open>The chunks the rule keeps, in their order, and the clock behind the last block.\<close>

fun survivors :: "env \<Rightarrow> nat \<Rightarrow> bytes list \<Rightarrow> pem_block list \<Rightarrow> bytes list" where
  "survivors E t (c # cs) (b # bs) =
     (if fst (block_verdict E t b) then [c] else []) @ survivors E (snd (block_verdict E t b)) cs bs"
| "survivors E t cs bs = []"

fun clock_after :: "env \<Rightarrow> nat \<Rightarrow> pem_block list \<Rightarrow> nat" where
  "clock_after E t [] = t"
| "clock_after E t (b # bs) = clock_after E (snd (block_verdict E t b)) bs"

text \<open>
  A chain of concatenated PEM blocks: decoding the chunks \<open>cs\<close> one behind the other
  yields the blocks \<open>bs\<close>, each decoding consuming exactly its chunk.
\<close>

fun pem_chain :: "env \<Rightarrow> bytes list \<Rightarrow> pem_block list \<Rightarrow> bool" where
  "pem_chain E [] [] = True"
| "pem_chain E (c # cs) (b # bs) =
     (c \<noteq> [] \<and> pem_Decode E (c @ concat cs) = (Some b, length c) \<and> pem_chain E cs bs)"
| "pem_chain E cs bs = False"

text \<open>
  No block parses to an empty list of certificates without an error (as empty DER input
  would): the loop reads \<^verbatim>\<open>certs[0]\<close>.
\<close>

definition parsable :: "env \<Rightarrow> pem_block list \<Rightarrow> bool" where
  "parsable E bs = (\<forall>b \<in> set bs. x509_ParseCertificates E (go_bytes (Bytes b)) \<noteq> Some [])"

text \<open>The loop's state while the output still shares the array of \<^verbatim>\<open>data\<close>.\<close>

definition shared_state :: "bytes \<Rightarrow> nat \<Rightarrow> nat \<Rightarrow> nat \<Rightarrow> prune_state" where
  "shared_state A off r t =
     \<lparr>data_array = A, rest_from = off, out = \<lparr>backing = A, len = r\<rparr>, out_shared = True, clock = t\<rparr>"

text \<open>The two buffers of \<^verbatim>\<open>pemEncode\<close>: a certificate's and a key's PEM encoding.\<close>

definition certificate_pem :: "env \<Rightarrow> bytes \<Rightarrow> bytes" where
  "certificate_pem E der = pem_Encode E \<lparr>Type = ''CERTIFICATE'', Bytes = Some der\<rparr>"

definition key_pem :: "env \<Rightarrow> private_key \<Rightarrow> bytes" where
  "key_pem E k =
     pem_Encode E \<lparr>Type = ''RSA PRIVATE KEY'', Bytes = Some (x509_MarshalPKCS1PrivateKey E k)\<rparr>"

text \<open>
  The bytes of a chain up to the end of its first PEM block, the name of the CA bundle that
  issues for a role, and the condition under which \<^verbatim>\<open>createCertSecret\<close> takes a path that
  issues a certificate: the bundle is absent, or \<^verbatim>\<open>isRenew\<close> holds behind the drift check.
\<close>

definition first_block :: "env \<Rightarrow> bytes \<Rightarrow> bytes" where
  "first_block E chain = take (min (length chain) (snd (pem_Decode E chain))) chain"

definition issuer_name :: "env \<Rightarrow> bool \<Rightarrow> string" where
  "issuer_name E isServer = (if \<not> isServer then ClientCACerts E else ServerCACerts E)"

definition issues :: "env \<Rightarrow> world \<Rightarrow> bool \<Rightarrow> string \<Rightarrow> string slice option \<Rightarrow> bool" where
  "issues E w isRenew name dns =
     (case client_Get E w name of
        Inl e \<Rightarrow> e = NotFound
      | Inr s \<Rightarrow> driftCheck E name s isRenew dns = Returns True)"


definition stored_certificate :: "env \<Rightarrow> secret \<Rightarrow> certificate option" where
  "stored_certificate E s =
     (case fst (pem_Decode E (tls_crt s)) of
        None \<Rightarrow> None
      | Some block \<Rightarrow>
          (case Bytes block of None \<Rightarrow> None | Some der \<Rightarrow> x509_ParseCertificate E der))"

text \<open>
  The bundle a write request names, and the frame of a call: outside \<open>names\<close> no bundle
  changes, and every request the call adds names a bundle of \<open>names\<close>.
\<close>

fun request_name :: "request \<Rightarrow> string" where
  "request_name (Create n s) = n"
| "request_name (Update n s) = n"

definition writes_only :: "string set \<Rightarrow> world \<Rightarrow> world \<Rightarrow> bool" where
  "writes_only names w w' =
     ((\<forall>n. n \<notin> names \<longrightarrow> objects w' n = objects w n)
      \<and> (\<exists>extra. requests w' = requests w @ extra \<and> (\<forall>q \<in> set extra. request_name q \<in> names)))"

text \<open>
  A leaf was renewed under a CA created in the same pass: after the requests that stood
  before, the CA bundle was created and later the leaf bundle updated; the leaf stores the
  first block of that CA's chain, and its certificate was signed with the certificate and
  key that the CA bundle holds.
\<close>

definition renewed_under :: "env \<Rightarrow> world \<Rightarrow> world \<Rightarrow> string \<Rightarrow> string \<Rightarrow> bool" where
  "renewed_under E w w' caName leafName =
     (\<exists>ca leaf pre mid post b1 caCert rest b2 caKey template k der.
        objects w' caName = Some ca \<and> objects w' leafName = Some leaf
      \<and> requests w' = requests w @ pre @ [Create caName ca] @ mid @ [Update leafName leaf] @ post
      \<and> ca_crt leaf = first_block E (tls_crt ca)
      \<and> fst (pem_Decode E (tls_crt ca)) = Some b1
      \<and> x509_ParseCertificates E (go_bytes (Bytes b1)) = Some (caCert # rest)
      \<and> fst (pem_Decode E (tls_key ca)) = Some b2
      \<and> x509_ParsePKCS1PrivateKey E (go_bytes (Bytes b2)) = Some caKey
      \<and> x509_CreateCertificate E template caCert (PublicKey k) caKey = Some der
      \<and> tls_crt leaf = certificate_pem E der)"

section \<open>A small environment for concrete runs\<close>

text \<open>
  The theorems below hold for every environment. To run the definitions on concrete
  inputs, a miniature of the library: a PEM block is a tag byte (1 for a certificate, 2
  for a key), a length byte and the payload; a certificate is its serial number, its
  \<^verbatim>\<open>NotAfter\<close> and one byte per DNS name (the name's length); a key is one byte.
\<close>

fun toy_Decode :: "bytes \<Rightarrow> pem_block option \<times> nat" where
  "toy_Decode (t # n # rest) =
     (if (t = 1 \<or> t = 2) \<and> unat n \<le> length rest
      then (Some \<lparr>Type = (if t = 1 then ''CERTIFICATE'' else ''RSA PRIVATE KEY''),
                  Bytes = Some (take (unat n) rest)\<rparr>, 2 + unat n)
      else (None, 0))"
| "toy_Decode rest = (None, 0)"

definition toy_Encode :: "pem_block \<Rightarrow> bytes" where
  "toy_Encode b =
     (if Type b = ''CERTIFICATE'' then 1 else 2)
       # of_nat (length (go_bytes (Bytes b))) # go_bytes (Bytes b)"

definition toy_name :: "8 word \<Rightarrow> string" where
  "toy_name b =
     (if b = 1 then ''h'' else if b = 2 then ''hh'' else if b = 3 then ''hhh'' else ''hhhh'')"

fun toy_ParseCertificate :: "bytes \<Rightarrow> certificate option" where
  "toy_ParseCertificate (sn # na # names) =
     Some \<lparr>SerialNumber = unat sn, Organization = [], Country = [], CommonName = [],
           OrganizationalUnit = [], NotBefore = 0, NotAfter = uint na, IsCA = False,
           KeyUsage = [], ExtKeyUsage = [], BasicConstraintsValid = False,
           DNSNames = map toy_name names, IPAddresses = []\<rparr>"
| "toy_ParseCertificate der = None"

text \<open>Go's \<^verbatim>\<open>x509.ParseCertificates\<close> returns no certificate and no error on empty input.\<close>

definition toy_ParseCertificates :: "bytes \<Rightarrow> certificate list option" where
  "toy_ParseCertificates der =
     (if der = [] then Some [] else map_option (\<lambda>c. [c]) (toy_ParseCertificate der))"

fun toy_ParsePKCS1PrivateKey :: "bytes \<Rightarrow> private_key option" where
  "toy_ParsePKCS1PrivateKey [k] = Some (PrivateKey (unat k))"
| "toy_ParsePKCS1PrivateKey der = None"

fun toy_MarshalPKCS1PrivateKey :: "private_key \<Rightarrow> bytes" where
  "toy_MarshalPKCS1PrivateKey (PrivateKey k) = [of_nat k]"

definition toy_CreateCertificate ::
  "certificate \<Rightarrow> certificate \<Rightarrow> public_key \<Rightarrow> private_key \<Rightarrow> bytes option" where
  "toy_CreateCertificate template parent pub priv =
     Some (of_nat (SerialNumber template) # of_int (NotAfter template)
             # map (\<lambda>n. of_nat (length n)) (DNSNames template))"

definition toy :: env where
  "toy =
     \<lparr>pem_Decode = toy_Decode, pem_Encode = toy_Encode,
      x509_ParseCertificate = toy_ParseCertificate,
      x509_ParseCertificates = toy_ParseCertificates,
      x509_ParsePKCS1PrivateKey = toy_ParsePKCS1PrivateKey,
      x509_MarshalPKCS1PrivateKey = toy_MarshalPKCS1PrivateKey,
      x509_CreateCertificate = toy_CreateCertificate,
      rand_Int = (\<lambda>limit t. Some 7), rsa_GenerateKey = (\<lambda>t. Some (PrivateKey 9)),
      time_Now = (\<lambda>t. 100), GetCertDuration = 10,
      ServerCACerts = ''server-ca'', ServerCerts = ''server'', ServerCertCN = ''hhh'',
      ClientCACerts = ''client-ca'', GrafanaCerts = ''grafana'', GrafanaCN = ''hhhh'',
      BackupLabelName = ''backup'', BackupLabelValue = ''yes'',
      GetObsAPISvc = ''h'', GetObsAPIHost = Inr ''hh'',
      getFault = (\<lambda>n. None), createFault = (\<lambda>n. None), updateFault = (\<lambda>n. None),
      ownerReferenceFault = None\<rparr>"

definition empty_world :: world where
  "empty_world = \<lparr>objects = (\<lambda>n. None), requests = [], ticks = 0\<rparr>"

definition toy_ca :: certificate where
  "toy_ca = caTemplate toy 0 7 ''ca''"

text \<open>A chain behind a first block: an expired certificate, an unparsable block, a valid one.\<close>

definition toy_chain :: "bytes list" where
  "toy_chain = [[1, 2, 6, 50], [1, 1, 9], [1, 2, 7, 150]]"

definition toy_blocks :: "pem_block list" where
  "toy_blocks = [\<lparr>Type = ''CERTIFICATE'', Bytes = Some [6, 50]\<rparr>,
                 \<lparr>Type = ''CERTIFICATE'', Bytes = Some [9]\<rparr>,
                 \<lparr>Type = ''CERTIFICATE'', Bytes = Some [7, 150]\<rparr>]"

text \<open>A CA bundle whose chain is the first block followed by \<open>toy_chain\<close>.\<close>

definition toy_ca_secret :: secret where
  "toy_ca_secret = \<lparr>Labels = [(''backup'', ''yes'')], OwnerReferences = [],
      ca_crt = [1, 2, 5, 200], tls_crt = [1, 2, 5, 200] @ concat toy_chain, tls_key = [2, 1, 9]\<rparr>"

definition toy_ca_world :: world where
  "toy_ca_world = \<lparr>objects = (\<lambda>n. if n = ''server-ca'' then Some toy_ca_secret else None),
                    requests = [], ticks = 0\<rparr>"

text \<open>
  A store with a CA bundle that was rotated once (two certificates in its chain) and a
  server leaf for the names \<open>hhh\<close> and \<open>h\<close>; the hosts \<open>h\<close> and \<open>hh\<close> are required.
\<close>

definition toy_rotated_ca :: secret where
  "toy_rotated_ca = \<lparr>Labels = [(''backup'', ''yes'')], OwnerReferences = [],
      ca_crt = [1, 2, 7, 150], tls_crt = [1, 2, 7, 150, 1, 2, 5, 200], tls_key = [2, 1, 9]\<rparr>"

definition toy_leaf :: secret where
  "toy_leaf = \<lparr>Labels = [(''backup'', ''yes'')], OwnerReferences = [],
      ca_crt = [1, 2, 5, 200], tls_crt = [1, 4, 7, 110, 3, 1], tls_key = [2, 1, 8]\<rparr>"

definition toy_leaf_world :: world where
  "toy_leaf_world =
     \<lparr>objects = (\<lambda>n. if n = ''server-ca'' then Some toy_rotated_ca
                     else if n = ''server'' then Some toy_leaf else None),
      requests = [], ticks = 0\<rparr>"

definition toy_hosts :: "string slice" where
  "toy_hosts = \<lparr>backing = [''h'', ''hh''], len = 2\<rparr>"

definition toy_renewed_leaf :: secret where
  "toy_renewed_leaf = \<lparr>Labels = [(''backup'', ''yes'')], OwnerReferences = [],
      ca_crt = [1, 2, 7, 150], tls_crt = [1, 5, 7, 110, 3, 1, 2], tls_key = [2, 1, 8]\<rparr>"


text \<open>
  The same store with a server certificate whose PEM block holds bytes that are no
  certificate, and a store whose CA key is no PEM block.
\<close>

definition toy_bad_leaf_world :: world where
  "toy_bad_leaf_world =
     \<lparr>objects = (\<lambda>n. if n = ''server-ca'' then Some toy_rotated_ca
                     else if n = ''server'' then Some (toy_leaf\<lparr>tls_crt := [1, 1, 9]\<rparr>) else None),
      requests = [], ticks = 0\<rparr>"

definition toy_bad_key_world :: world where
  "toy_bad_key_world =
     \<lparr>objects = (\<lambda>n. if n = ''server-ca'' then Some (toy_rotated_ca\<lparr>tls_key := [9]\<rparr>) else None),
      requests = [], ticks = 0\<rparr>"

text \<open>
  Stores without CA bundles, one holding a server leaf that covers the required hosts and
  one holding a server leaf of an earlier CA; and an environment whose route lookup fails.
\<close>

definition toy_stale_world :: world where
  "toy_stale_world =
     \<lparr>objects = (\<lambda>n. if n = ''server'' then Some toy_renewed_leaf else None),
      requests = [], ticks = 0\<rparr>"

definition toy_no_route :: env where
  "toy_no_route = toy\<lparr>GetObsAPIHost := Inl HostError\<rparr>"

definition toy_orphan_world :: world where
  "toy_orphan_world =
     \<lparr>objects = (\<lambda>n. if n = ''server'' then Some toy_leaf else None),
      requests = [], ticks = 0\<rparr>"

text \<open>
  A CA bundle whose chain holds, behind the first block, a PEM block with an empty body
  and a valid certificate.
\<close>

definition toy_empty_block_secret :: secret where
  "toy_empty_block_secret = \<lparr>Labels = [(''backup'', ''yes'')], OwnerReferences = [],
      ca_crt = [1, 2, 5, 200], tls_crt = [1, 2, 5, 200, 1, 0, 1, 2, 7, 150], tls_key = [2, 1, 9]\<rparr>"

definition toy_empty_block_world :: world where
  "toy_empty_block_world =
     \<lparr>objects = (\<lambda>n. if n = ''server-ca'' then Some toy_empty_block_secret else None),
      requests = [], ticks = 0\<rparr>"

section \<open>The certificate factory: the DNS names of a leaf\<close>

text \<open>
  The validity of a CA is five times the configured duration in 64-bit arithmetic: a
  duration of \<open>2 ^ 62\<close> nanoseconds wraps to a validity of \<open>2 ^ 62\<close>, not five times that.
\<close>

lemma caTemplate_duration_wraps:
  "NotAfter (caTemplate (E\<lparr>GetCertDuration := 2 ^ 62\<rparr>) t sn cn)
     = time_Now E (t + 2) + 2 ^ 62"
  by (simp add: caTemplate_def)

lemma dnsNames_Some:
  assumes "len s \<le> cap s" "elements s \<noteq> []"
  shows "createCertificate_dnsNames cn (Some s) = Returns (cn # elements s)"
proof -
  from assms(2) obtain x xs where b: "backing s = x # xs" and l: "0 < len s"
    by (cases "backing s"; cases "len s") (auto simp: elements_def)
  have e: "elements s = x # take (len s - 1) xs"
    using b l by (cases "len s") (simp_all add: elements_def)
  show ?thesis
    using assms(1) b l
    by (simp add: createCertificate_dnsNames_def reslice_def append_slice_def set_first_def
        cap_def e elements_def min_def)
qed

lemma dnsNames_usable:
  "usable_dns dns \<Longrightarrow> createCertificate_dnsNames cn dns = Returns (cn # supplied_dns dns)"
  by (cases dns)
     (simp_all add: usable_dns_def supplied_dns_def dnsNames_Some,
      simp add: createCertificate_dnsNames_def)

text \<open>
  A non-nil list of length 0 is neither of the two cases above: it yields \<open>[cn]\<close> when
  the slice has spare capacity, and \<^verbatim>\<open>dns[:1]\<close> panics when it has none.
\<close>

lemma dnsNames_empty_slice:
  "createCertificate_dnsNames cn (Some \<lparr>backing = [], len = 0\<rparr>) = Panics SliceBoundsOutOfRange"
  by (simp add: createCertificate_dnsNames_def reslice_def cap_def)

lemma dnsNames_empty_with_capacity:
  "createCertificate_dnsNames cn (Some \<lparr>backing = x # xs, len = 0\<rparr>) = Returns [cn]"
  by (simp add: createCertificate_dnsNames_def reslice_def cap_def append_slice_def elements_def
        set_first_def)


text \<open>
  C1. For a leaf issuance with a non-empty supplied DNS list, lines 335 to 341 yield the
  common name followed by the whole supplied list in its order, one entry more than supplied
  and nothing removed: a common name that is also supplied occurs once more than it was
  supplied. With no list supplied the names are the common name alone. The issuance never
  panics: it returns the error of the random source, of the key generation or of the
  signature, and otherwise the key and the bytes that \<^verbatim>\<open>x509.CreateCertificate\<close> gave
  for the template with exactly these names.
\<close>

theorem createCertificate_DNSNames:
  assumes "usable_dns dns"
  shows "createCertificate_dnsNames cn dns = Returns (cn # supplied_dns dns)
       \<and> fst (createCertificate E w isServer cn ou dns ips caCert caKey key) =
           (case rand_Int E serialNumberLimit (ticks w) of
              None \<Rightarrow> Returns (Inl RandError)
            | Some sn \<Rightarrow>
                (case (case key of None \<Rightarrow> rsa_GenerateKey E (ticks w + 3) | Some k \<Rightarrow> Some k) of
                   None \<Rightarrow> Returns (Inl KeyGenError)
                 | Some k \<Rightarrow>
                     (case x509_CreateCertificate E
                             (leafTemplate E (ticks w) sn isServer cn ou (cn # supplied_dns dns) ips)
                             caCert (PublicKey k) caKey of
                        None \<Rightarrow> Returns (Inl SignError)
                      | Some certBytes \<Rightarrow>
                          Returns (Inr (x509_MarshalPKCS1PrivateKey E k, certBytes)))))
       \<and> DNSNames (leafTemplate E t sn' isServer cn ou (cn # supplied_dns dns) ips)
           = cn # supplied_dns dns
       \<and> length (cn # supplied_dns dns) = length (supplied_dns dns) + 1
       \<and> count_list (cn # supplied_dns dns) cn = count_list (supplied_dns dns) cn + 1
       \<and> (dns = None \<longrightarrow> cn # supplied_dns dns = [cn])"
proof -
  have n: "createCertificate_dnsNames cn dns = Returns (cn # supplied_dns dns)"
    using assms by (rule dnsNames_usable)
  have r: "fst (createCertificate E w isServer cn ou dns ips caCert caKey key) =
           (case rand_Int E serialNumberLimit (ticks w) of
              None \<Rightarrow> Returns (Inl RandError)
            | Some sn \<Rightarrow>
                (case (case key of None \<Rightarrow> rsa_GenerateKey E (ticks w + 3) | Some k \<Rightarrow> Some k) of
                   None \<Rightarrow> Returns (Inl KeyGenError)
                 | Some k \<Rightarrow>
                     (case x509_CreateCertificate E
                             (leafTemplate E (ticks w) sn isServer cn ou (cn # supplied_dns dns) ips)
                             caCert (PublicKey k) caKey of
                        None \<Rightarrow> Returns (Inl SignError)
                      | Some certBytes \<Rightarrow>
                          Returns (Inr (x509_MarshalPKCS1PrivateKey E k, certBytes)))))"
    by (simp add: createCertificate_def n Let_def split: option.splits)
  have d: "DNSNames (leafTemplate E t sn' isServer cn ou (cn # supplied_dns dns) ips)
             = cn # supplied_dns dns"
    by (simp add: leafTemplate_def)
  from n r d show ?thesis by (simp add: supplied_dns_def)
qed

theorem createCertificate_DNSNames_witness:
  "usable_dns (Some \<lparr>backing = [''hhh'', ''hh''], len = 2\<rparr>)
   \<and> createCertificate_dnsNames ''hhh'' (Some \<lparr>backing = [''hhh'', ''hh''], len = 2\<rparr>)
       = Returns [''hhh'', ''hhh'', ''hh'']
   \<and> fst (createCertificate toy empty_world True ''hhh'' None
            (Some \<lparr>backing = [''hhh'', ''hh''], len = 2\<rparr>) None toy_ca (PrivateKey 1) None)
       = Returns (Inr ([9], [7, 110, 3, 3, 2]))
   \<and> count_list [''hhh'', ''hhh'', ''hh''] ''hhh'' = 2"
proof -
  have u: "usable_dns (Some \<lparr>backing = [''hhh'', ''hh''], len = 2\<rparr>)"
    by (simp add: usable_dns_def cap_def elements_def)
  have s: "supplied_dns (Some \<lparr>backing = [''hhh'', ''hh''], len = 2\<rparr>) = [''hhh'', ''hh'']"
    by (simp add: supplied_dns_def elements_def)
  from createCertificate_DNSNames [OF u, of "''hhh''" toy empty_world True None None toy_ca
      "PrivateKey 1" None]
  show ?thesis
    unfolding s using u
    by (simp add: toy_def empty_world_def leafTemplate_def toy_CreateCertificate_def)
qed

section \<open>The chain pruner: what survives\<close>

lemma shared_state_sel [simp]:
  "data_array (shared_state A off r t) = A"
  "rest_from (shared_state A off r t) = off"
  "elements (out (shared_state A off r t)) = take r A"
  "len (out (shared_state A off r t)) = r"
  "clock (shared_state A off r t) = t"
  by (simp_all add: shared_state_def elements_def)

lemma step_chain:
  assumes dec: "pem_Decode E (drop off A) = (Some b, n)"
    and n: "off + n \<le> length A" and r: "r \<le> off"
    and p: "x509_ParseCertificates E (go_bytes (Bytes b)) \<noteq> Some []"
  shows "removeExpiredCA_step E (shared_state A off r t) =
           Returns (if fst (block_verdict E t b)
                    then shared_state (take r A @ take n (drop off A) @ drop (r + n) A)
                           (off + n) (r + n) (snd (block_verdict E t b))
                    else shared_state A (off + n) r (snd (block_verdict E t b)))"
proof -
  have m: "min (length A - off) n = n" using n by arith
  have l: "r + n \<le> length A" using n r by arith
  show ?thesis
    using p l
    by (auto simp: removeExpiredCA_step_def shared_state_def block_verdict_def Let_def
          append_slice_def cap_def dec m
        split: option.splits list.splits)
qed

lemma drop_eq_length: "drop off A = X \<Longrightarrow> X \<noteq> [] \<Longrightarrow> length A = off + length X"
  by (metis drop_eq_Nil2 le_add_diff_inverse length_drop nat_le_linear)

lemma chain_length:
  assumes ch: "pem_chain E (c # cs) (b # bs)" and d: "drop off A = c @ concat cs"
  shows "length A = off + length c + length (concat cs)"
proof -
  from ch have c: "c \<noteq> []" by simp
  show ?thesis using drop_eq_length [OF d] c by simp
qed

lemma step_head:
  assumes ch: "pem_chain E (c # cs) (b # bs)" and pa: "parsable E (b # bs)"
    and d: "drop off A = c @ concat cs" and r: "r \<le> off"
  shows "removeExpiredCA_step E (shared_state A off r t) =
           Returns (if fst (block_verdict E t b)
                    then shared_state (take r A @ c @ drop (r + length c) A)
                           (off + length c) (r + length c) (snd (block_verdict E t b))
                    else shared_state A (off + length c) r (snd (block_verdict E t b)))"
proof -
  from ch have dec: "pem_Decode E (drop off A) = (Some b, length c)"
    by (simp_all add: d)
  have p: "x509_ParseCertificates E (go_bytes (Bytes b)) \<noteq> Some []"
    using pa by (simp add: parsable_def)
  have n: "off + length c \<le> length A" using chain_length [OF ch d] by simp
  show ?thesis
    using step_chain [OF dec n r p, of t] by (simp add: d)
qed

lemma drop_written:
  assumes "r \<le> off" "off + n \<le> length A" "length c = n"
  shows "drop (off + n) (take r A @ c @ drop (r + n) A) = drop (off + n) A"
proof -
  have l: "length (take r A @ c) = r + n" using assms by simp
  have "drop (off + n) ((take r A @ c) @ drop (r + n) A)
          = drop (off + n - (r + n)) (drop (r + n) A)"
    using l assms(1) by (simp del: append_assoc)
  also have "\<dots> = drop (off + n) A" using assms(1) by simp
  finally show ?thesis by simp
qed

lemma loop_chain:
  assumes "pem_chain E (c # cs) (b # bs)" and "parsable E (b # bs)"
    and "drop off A = c @ concat cs" and "r \<le> off"
  shows "\<exists>A'. removeExpiredCA_loop E (shared_state A off r t) =
           Some (Returns (shared_state A' (length A)
                   (r + length (concat (survivors E t (c # cs) (b # bs))))
                   (clock_after E t (b # bs))))
         \<and> length A' = length A
         \<and> take (r + length (concat (survivors E t (c # cs) (b # bs)))) A'
             = take r A @ concat (survivors E t (c # cs) (b # bs))"
  using assms
proof (induction cs arbitrary: c b bs A off r t)
  case Nil
  then have bs: "bs = []" by (cases bs) simp_all
  note st = step_head [OF Nil.prems, of t]
  have len: "length A = off + length c" using chain_length [OF Nil.prems(1,3)] by simp
  show ?case
    using len Nil.prems(3,4) bs
    by (subst removeExpiredCA_loop.simps) (auto simp: st)
next
  case (Cons c' cs')
  then obtain b' bs' where bs: "bs = b' # bs'" by (cases bs) simp_all
  note st = step_head [OF Cons.prems, of t]
  from Cons.prems have chain': "pem_chain E (c' # cs') (b' # bs')" and c': "c' \<noteq> []"
    and pa': "parsable E (b' # bs')"
    by (simp_all add: bs parsable_def)
  have len: "length A = off + length c + length (c' @ concat cs')"
    using chain_length [OF Cons.prems(1,3)] by simp
  have more: "off + length c \<noteq> length A" using len c' by simp
  have rest: "drop (off + length c) A = c' @ concat cs'"
    using Cons.prems(3) by (metis append_eq_conv_conj concat.simps(2) drop_drop add.commute)
  define t' where "t' = snd (block_verdict E t b)"
  define S where "S = concat (survivors E t' (c' # cs') (b' # bs'))"
  define K where "K = clock_after E t' (b' # bs')"
  have surv: "concat (survivors E t (c # c' # cs') (b # bs))
                = (if fst (block_verdict E t b) then c else []) @ S"
    by (simp add: bs S_def t'_def)
  have clk: "clock_after E t (b # bs) = K"
    by (simp add: bs K_def t'_def)
  show ?case
  proof (cases "fst (block_verdict E t b)")
    case False
    have unfold: "removeExpiredCA_loop E (shared_state A off r t)
                    = removeExpiredCA_loop E (shared_state A (off + length c) r t')"
      using False more by (subst removeExpiredCA_loop.simps) (simp add: st t'_def)
    have r': "r \<le> off + length c" using Cons.prems(4) by simp
    from Cons.IH [OF chain' pa' rest r', of t']
    obtain A' where "removeExpiredCA_loop E (shared_state A (off + length c) r t') =
           Some (Returns (shared_state A' (length A) (r + length S) K))"
         "length A' = length A" "take (r + length S) A' = take r A @ S"
      unfolding S_def K_def by blast
    then show ?thesis
      unfolding unfold surv clk using False by auto
  next
    case True
    define B where "B = take r A @ c @ drop (r + length c) A"
    have lB: "length B = length A" using Cons.prems(4) len by (simp add: B_def)
    have restB: "drop (off + length c) B = c' @ concat cs'"
      unfolding B_def using drop_written [OF Cons.prems(4), of "length c" A c] len rest by simp
    have tB: "take (r + length c) B = take r A @ c"
      using Cons.prems(4) len by (simp add: B_def)
    have rB: "r + length c \<le> off + length c" using Cons.prems(4) by simp
    have unfold: "removeExpiredCA_loop E (shared_state A off r t)
                    = removeExpiredCA_loop E (shared_state B (off + length c) (r + length c) t')"
      using True more lB by (subst removeExpiredCA_loop.simps) (simp add: st t'_def B_def)
    from Cons.IH [OF chain' pa' restB rB, of t']
    obtain A' where "removeExpiredCA_loop E (shared_state B (off + length c) (r + length c) t') =
           Some (Returns (shared_state A' (length B) (r + length c + length S) K))"
         "length A' = length B" "take (r + length c + length S) A' = take (r + length c) B @ S"
      unfolding S_def K_def by blast
    then show ?thesis
      unfolding unfold surv clk using True lB tB by (auto simp: add.assoc)
  qed
qed

lemma survivors_subseq: "subseq (survivors E t cs bs) cs"
  by (induction E t cs bs rule: survivors.induct) (auto simp: subseq_Cons' )

lemma block_verdict_iff:
  "fst (block_verdict E t b) \<longleftrightarrow>
     (\<exists>c0 cs. x509_ParseCertificates E (go_bytes (Bytes b)) = Some (c0 # cs)
             \<and> \<not> NotAfter c0 < time_Now E t)"
  by (auto simp: block_verdict_def split: option.splits list.splits)

lemma scan_chain:
  assumes first: "snd (pem_Decode E (c0 @ concat cs)) = length c0"
    and chain: "pem_chain E cs bs" and pa: "parsable E bs"
  shows "\<exists>st. removeExpiredCA_scan E t (c0 @ concat cs) = Some (Returns st)
            \<and> elements (out st) = c0 @ concat (survivors E t cs bs)
            \<and> len (out st) = length (c0 @ concat (survivors E t cs bs))
            \<and> clock st = clock_after E t bs"
proof (cases cs)
  case Nil
  with chain have "bs = []" by (cases bs) simp_all
  with Nil first show ?thesis
    by (simp add: removeExpiredCA_scan_def elements_def Let_def)
next
  case (Cons c cs')
  with chain obtain b bs' where bs: "bs = b # bs'" by (cases bs) simp_all
  from chain have c: "c \<noteq> []" by (simp add: Cons bs)
  define A where "A = c0 @ concat cs"
  have d: "drop (length c0) A = c @ concat cs'" by (simp add: A_def Cons)
  from loop_chain [OF chain [unfolded Cons bs] pa [unfolded bs] d order_refl, of t]
  obtain A' where A': "removeExpiredCA_loop E (shared_state A (length c0) (length c0) t) =
           Some (Returns (shared_state A' (length A)
                   (length c0 + length (concat (survivors E t cs bs)))
                   (clock_after E t bs)))"
       "take (length c0 + length (concat (survivors E t cs bs))) A'
             = take (length c0) A @ concat (survivors E t cs bs)"
    unfolding Cons bs by blast
  have scan: "removeExpiredCA_scan E t A = removeExpiredCA_loop E (shared_state A (length c0) (length c0) t)"
    using first c by (simp add: removeExpiredCA_scan_def A_def shared_state_def Cons Let_def)
  show ?thesis
    unfolding A_def [symmetric] scan A' using A'(2) by (simp add: A_def)
qed

lemma survivors_rule:
  "survivors E t' (c # cs') (b # bs') =
     (if (\<exists>c0 rest. x509_ParseCertificates E (go_bytes (Bytes b)) = Some (c0 # rest)
                    \<and> \<not> NotAfter c0 < time_Now E t')
      then [c] else []) @ survivors E (snd (block_verdict E t' b)) cs' bs'"
  by (simp only: survivors.simps block_verdict_iff)

text \<open>
  Where every block behind the first parses to an error or to at least one certificate,
  the scan of a chain of concatenated PEM blocks returns, and the chain it leaves is the
  first chunk as it stands (no parse, no expiry check) followed by the surviving chunks: a
  later block is dropped exactly when it fails to parse or its \<^verbatim>\<open>NotAfter\<close> is before
  the clock's reading; the survivors are the original chunks, byte for byte, in their
  original order.
\<close>

theorem removeExpiredCA_scan_prunes:
  assumes "snd (pem_Decode E (c0 @ concat cs)) = length c0"
    and "pem_chain E cs bs" and "parsable E bs"
  shows "(\<exists>st. removeExpiredCA_scan E t (c0 @ concat cs) = Some (Returns st)
             \<and> elements (out st) = c0 @ concat (survivors E t cs bs))
       \<and> subseq (survivors E t cs bs) cs
       \<and> (\<forall>c b cs' bs' t'. survivors E t' (c # cs') (b # bs') =
            (if (\<exists>c0 rest. x509_ParseCertificates E (go_bytes (Bytes b)) = Some (c0 # rest)
                           \<and> \<not> NotAfter c0 < time_Now E t')
             then [c] else []) @ survivors E (snd (block_verdict E t' b)) cs' bs')"
proof -
  from scan_chain [OF assms, of t]
  have "\<exists>st. removeExpiredCA_scan E t (c0 @ concat cs) = Some (Returns st)
             \<and> elements (out st) = c0 @ concat (survivors E t cs bs)"
    by blast
  moreover have "subseq (survivors E t cs bs) cs" by (rule survivors_subseq)
  ultimately show ?thesis
    using survivors_rule [of E] by blast
qed

lemma toy_chain_ok:
  "snd (pem_Decode toy ([1, 2, 5, 200] @ concat toy_chain)) = length [1, 2, 5, 200 :: 8 word]"
  "pem_chain toy toy_chain toy_blocks" "parsable toy toy_blocks"
  by (simp_all add: toy_def toy_chain_def toy_blocks_def parsable_def toy_ParseCertificates_def
       go_bytes_def)

lemma toy_survivors: "survivors toy 0 toy_chain toy_blocks = [[1, 2, 7, 150]]"
  by (simp add: toy_def toy_chain_def toy_blocks_def block_verdict_def toy_ParseCertificates_def
       go_bytes_def)

theorem removeExpiredCA_scan_prunes_witness:
  "snd (pem_Decode toy ([1, 2, 5, 200] @ concat toy_chain)) = length [1, 2, 5, 200 :: 8 word]
   \<and> pem_chain toy toy_chain toy_blocks \<and> parsable toy toy_blocks
   \<and> (\<exists>st. removeExpiredCA_scan toy 0 ([1, 2, 5, 200] @ concat toy_chain) = Some (Returns st)
          \<and> elements (out st) = [1, 2, 5, 200, 1, 2, 7, 150])"
  using removeExpiredCA_scan_prunes [OF toy_chain_ok, of 0] toy_chain_ok
  by (simp add: toy_survivors)

lemma toy_empty_block_scan:
  "removeExpiredCA_scan toy 0 [1, 2, 5, 200, 1, 0, 1, 2, 7, 150] = Some (Panics IndexOutOfRange)"
  by (simp add: removeExpiredCA_scan_def Let_def toy_def)
     (subst removeExpiredCA_loop.simps,
      simp add: removeExpiredCA_step_def Let_def toy_def toy_ParseCertificates_def go_bytes_def)

text \<open>
  C2 at its failing input. A block with an empty body is a PEM block, and
  \<^verbatim>\<open>x509.ParseCertificates\<close> returns for it neither an error nor a certificate; line 415
  then reads \<^verbatim>\<open>certs[0]\<close> of the empty list. The pruning of such a chain panics: the
  block is neither dropped nor kept, and the valid certificate behind it is never reached.
\<close>

theorem removeExpiredCA_empty_block_panics:
  "pem_chain toy [[1, 0], [1, 2, 7, 150]]
     [\<lparr>Type = ''CERTIFICATE'', Bytes = Some []\<rparr>, \<lparr>Type = ''CERTIFICATE'', Bytes = Some [7, 150]\<rparr>]
   \<and> x509_ParseCertificates toy [] = Some []
   \<and> tls_crt toy_empty_block_secret = [1, 2, 5, 200] @ concat [[1, 0], [1, 2, 7, 150]]
   \<and> client_Get toy toy_empty_block_world ''server-ca'' = Inr toy_empty_block_secret
   \<and> removeExpiredCA_scan toy 0 (tls_crt toy_empty_block_secret) = Some (Panics IndexOutOfRange)
   \<and> removeExpiredCA toy toy_empty_block_world ''server-ca''
       = Some (Panics IndexOutOfRange, toy_empty_block_world)"
proof -
  have g: "client_Get toy toy_empty_block_world ''server-ca'' = Inr toy_empty_block_secret"
    by (simp add: client_Get_def toy_def toy_empty_block_world_def)
  have t: "tls_crt toy_empty_block_secret = [1, 2, 5, 200, 1, 0, 1, 2, 7, 150]"
    by (simp add: toy_empty_block_secret_def)
  have k: "ticks toy_empty_block_world = 0" by (simp add: toy_empty_block_world_def)
  have c: "pem_chain toy [[1, 0], [1, 2, 7, 150]]
     [\<lparr>Type = ''CERTIFICATE'', Bytes = Some []\<rparr>, \<lparr>Type = ''CERTIFICATE'', Bytes = Some [7, 150]\<rparr>]"
    "x509_ParseCertificates toy [] = Some []"
    by (simp_all add: toy_def toy_ParseCertificates_def)
  have r: "removeExpiredCA toy toy_empty_block_world ''server-ca''
       = Some (Panics IndexOutOfRange, toy_empty_block_world)"
    by (simp add: removeExpiredCA_def g t k toy_empty_block_scan)
  from g c r show ?thesis by (simp add: t toy_empty_block_scan)
qed

section \<open>The chain pruner: what is written back\<close>

lemma client_Get_Inr:
  "client_Get E w name = Inr s \<longleftrightarrow> getFault E name = None \<and> objects w name = Some s"
  by (auto simp: client_Get_def split: option.splits)

lemma client_Update_frame:
  "requests (snd (client_Update E w name s)) = requests w @ [Update name s]"
  "n \<noteq> name \<Longrightarrow> objects (snd (client_Update E w name s)) n = objects w n"
  "objects (snd (client_Update E w name s)) name = Some s
   \<or> objects (snd (client_Update E w name s)) name = objects w name"
  by (auto simp: client_Update_def Let_def split: option.splits)

text \<open>
  Whatever the chain holds, a pruning that returns or panics leaves every other bundle, the
  active certificate and the key as they were.
\<close>

lemma removeExpiredCA_frame:
  assumes "removeExpiredCA E w name = Some (r, w')"
  shows "(\<forall>n. n \<noteq> name \<longrightarrow> objects w' n = objects w n)
       \<and> (\<forall>s. objects w name = Some s \<longrightarrow>
             (\<exists>s'. objects w' name = Some s' \<and> ca_crt s' = ca_crt s \<and> tls_key s' = tls_key s))"
  using assms
  by (auto simp: removeExpiredCA_def client_Get_def client_Update_def Let_def
      split: sum.splits option.splits outcome.splits if_splits)

text \<open>
  C9. Pruning a CA bundle whose chain is a chain of PEM blocks returns; it issues exactly
  one write, an update of the bundle with the pruned chain, when the pruned chain's length
  differs from the original's, and no write otherwise. The update carries the bundle with
  only \<^verbatim>\<open>tls.crt\<close> (the chain) replaced, so the active certificate \<^verbatim>\<open>ca.crt\<close> and the
  key \<^verbatim>\<open>tls.key\<close> of the stored bundle are what they were, and no other bundle changes.
\<close>

theorem removeExpiredCA_writes:
  assumes get: "client_Get E w name = Inr s" and data: "tls_crt s = c0 @ concat cs"
    and first: "snd (pem_Decode E (c0 @ concat cs)) = length c0"
    and chain: "pem_chain E cs bs" and pa: "parsable E bs"
  shows "\<exists>w'. removeExpiredCA E w name = Some (Returns (), w')
          \<and> requests w' = requests w @
               (if length (c0 @ concat (survivors E (ticks w) cs bs)) \<noteq> length (tls_crt s)
                then [Update name (s\<lparr>tls_crt := c0 @ concat (survivors E (ticks w) cs bs)\<rparr>)]
                else [])
          \<and> (\<exists>s'. objects w' name = Some s' \<and> ca_crt s' = ca_crt s \<and> tls_key s' = tls_key s)
          \<and> (\<forall>n. n \<noteq> name \<longrightarrow> objects w' n = objects w n)"
proof -
  from scan_chain [OF first chain pa, of "ticks w"]
  obtain st where st: "removeExpiredCA_scan E (ticks w) (tls_crt s) = Some (Returns st)"
    "elements (out st) = c0 @ concat (survivors E (ticks w) cs bs)"
    "len (out st) = length (c0 @ concat (survivors E (ticks w) cs bs))"
    unfolding data by blast
  from get have obj: "objects w name = Some s" by (simp add: client_Get_Inr)
  define s' where "s' = s\<lparr>tls_crt := c0 @ concat (survivors E (ticks w) cs bs)\<rparr>"
  define w1 where "w1 = w\<lparr>ticks := clock st\<rparr>"
  have w1: "requests w1 = requests w" "objects w1 = objects w" by (simp_all add: w1_def)
  show ?thesis
  proof (cases "length (tls_crt s) \<noteq> len (out st)")
    case True
    have run: "removeExpiredCA E w name = Some (Returns (), snd (client_Update E w1 name s'))"
      using True by (simp add: removeExpiredCA_def get st s'_def w1_def Let_def)
    have keep: "\<exists>x. objects (snd (client_Update E w1 name s')) name = Some x
                  \<and> ca_crt x = ca_crt s \<and> tls_key x = tls_key s"
      using client_Update_frame(3) [of E w1 name s'] obj w1 by (auto simp: s'_def)
    show ?thesis
      using True st(3) keep
      by (simp add: run client_Update_frame w1 s'_def [symmetric])
  next
    case False
    have run: "removeExpiredCA E w name = Some (Returns (), w1)"
      using False by (simp add: removeExpiredCA_def get st w1_def Let_def)
    show ?thesis
      using False st(3) obj by (simp add: run w1)
  qed
qed

theorem removeExpiredCA_writes_witness:
  "client_Get toy toy_ca_world ''server-ca'' = Inr toy_ca_secret
   \<and> (\<exists>w'. removeExpiredCA toy toy_ca_world ''server-ca'' = Some (Returns (), w')
          \<and> requests w' = [Update ''server-ca'' (toy_ca_secret\<lparr>tls_crt := [1, 2, 5, 200, 1, 2, 7, 150]\<rparr>)]
          \<and> (\<exists>s'. objects w' ''server-ca'' = Some s' \<and> ca_crt s' = [1, 2, 5, 200] \<and> tls_key s' = [2, 1, 9]))"
proof -
  have g: "client_Get toy toy_ca_world ''server-ca'' = Inr toy_ca_secret"
    by (simp add: client_Get_def toy_def toy_ca_world_def)
  have d: "tls_crt toy_ca_secret = [1, 2, 5, 200] @ concat toy_chain"
    by (simp add: toy_ca_secret_def)
  have t: "ticks toy_ca_world = 0" by (simp add: toy_ca_world_def)
  have r: "requests toy_ca_world = []" by (simp add: toy_ca_world_def)
  have c: "ca_crt toy_ca_secret = [1, 2, 5, 200]" "tls_key toy_ca_secret = [2, 1, 9]"
    by (simp_all add: toy_ca_secret_def)
  have l: "length (tls_crt toy_ca_secret) \<noteq> 8" by (simp add: toy_ca_secret_def toy_chain_def)
  from removeExpiredCA_writes [OF g d toy_chain_ok] l
  have "\<exists>w'. removeExpiredCA toy toy_ca_world ''server-ca'' = Some (Returns (), w')
          \<and> requests w' = [Update ''server-ca'' (toy_ca_secret\<lparr>tls_crt := [1, 2, 5, 200, 1, 2, 7, 150]\<rparr>)]
          \<and> (\<exists>s'. objects w' ''server-ca'' = Some s' \<and> ca_crt s' = [1, 2, 5, 200] \<and> tls_key s' = [2, 1, 9])
          \<and> (\<forall>n. n \<noteq> ''server-ca'' \<longrightarrow> objects w' n = objects toy_ca_world n)"
    unfolding t toy_survivors r c by simp
  with g show ?thesis by blast
qed

section \<open>The CA manager: renewal and idempotence\<close>

lemma client_Update_None:
  "client_Update E w name s = (None, w') \<longleftrightarrow>
     updateFault E name = None \<and> objects w name \<noteq> None
     \<and> w' = w\<lparr>requests := requests w @ [Update name s], objects := (objects w)(name \<mapsto> s)\<rparr>"
  by (auto simp: client_Update_def Let_def split: option.splits)

lemma client_Create_None:
  "client_Create E w name s = (None, w') \<longleftrightarrow>
     createFault E name = None \<and> objects w name = None
     \<and> w' = w\<lparr>requests := requests w @ [Create name s], objects := (objects w)(name \<mapsto> s)\<rparr>"
  by (auto simp: client_Create_def Let_def split: option.splits)

lemma createCACertificate_ok:
  assumes "rand_Int E serialNumberLimit (ticks w) = Some sn"
    and "(case caKey of None \<Rightarrow> rsa_GenerateKey E (ticks w + 3) | Some k' \<Rightarrow> Some k') = Some k"
    and "x509_CreateCertificate E (caTemplate E (ticks w) sn cn) (caTemplate E (ticks w) sn cn)
           (PublicKey k) k = Some der"
  shows "createCACertificate E w cn caKey =
           (Inr (x509_MarshalPKCS1PrivateKey E k, der),
            w\<lparr>ticks := (case caKey of None \<Rightarrow> ticks w + 4 | Some k' \<Rightarrow> ticks w + 3)\<rparr>)"
  using assms by (simp add: createCACertificate_def Let_def)

lemma createCACertificate_frame:
  "objects (snd (createCACertificate E w cn caKey)) = objects w"
  "requests (snd (createCACertificate E w cn caKey)) = requests w"
  by (auto simp: createCACertificate_def Let_def split: option.splits)

lemma pem_chain_prepend:
  "pem_chain E cs bs \<Longrightarrow> new \<noteq> [] \<Longrightarrow> pem_Decode E (new @ concat cs) = (Some b, length new)
     \<Longrightarrow> pem_chain E (new # cs) (b # bs)"
  by simp

text \<open>
  Where the stored key is a PEM block (whether its bytes parse or not) and the random
  source, the key, the signature and the store's update succeed, renewing an existing CA
  bundle returns \<^verbatim>\<open>wasModified = true\<close> and stores the new certificate's PEM in front of
  the whole previous chain, with the active certificate and the key replaced by the new
  ones. Where the previous chain is a chain of at least one PEM block and the decoder reads
  the new encoding back, the stored chain is a chain of at least two blocks, the new one
  first.
\<close>

theorem createCASecret_renew_prepends:
  assumes get: "client_Get E w name = Inr s"
    and key: "fst (pem_Decode E (tls_key s)) = Some block"
    and sn: "rand_Int E serialNumberLimit (ticks w) = Some sn"
    and k: "(case x509_ParsePKCS1PrivateKey E (go_bytes (Bytes block)) of
               None \<Rightarrow> rsa_GenerateKey E (ticks w + 3) | Some k' \<Rightarrow> Some k') = Some k"
    and der: "x509_CreateCertificate E (caTemplate E (ticks w) sn cn) (caTemplate E (ticks w) sn cn)
           (PublicKey k) k = Some der"
    and upd: "updateFault E name = None"
  shows "\<exists>w'. createCASecret E w mco True name cn = (Returns (None, True), w')
           \<and> objects w' name =
               Some (s\<lparr>ca_crt := certificate_pem E der,
                       tls_crt := certificate_pem E der @ tls_crt s,
                       tls_key := key_pem E k\<rparr>)
           \<and> requests w' = requests w @
                 [Update name (s\<lparr>ca_crt := certificate_pem E der,
                       tls_crt := certificate_pem E der @ tls_crt s,
                       tls_key := key_pem E k\<rparr>)]
           \<and> (\<forall>cs bs b. pem_chain E cs bs \<and> cs \<noteq> [] \<and> tls_crt s = concat cs
                  \<and> certificate_pem E der \<noteq> []
                  \<and> pem_Decode E (certificate_pem E der @ tls_crt s)
                       = (Some b, length (certificate_pem E der))
               \<longrightarrow> pem_chain E (certificate_pem E der # cs) (b # bs)
                 \<and> 2 \<le> length (certificate_pem E der # cs))"
proof -
  from get have obj: "objects w name \<noteq> None" by (simp add: client_Get_Inr)
  define w1 where "w1 = w\<lparr>ticks := (case x509_ParsePKCS1PrivateKey E (go_bytes (Bytes block)) of
                                      None \<Rightarrow> ticks w + 4 | Some k' \<Rightarrow> ticks w + 3)\<rparr>"
  define s' where "s' = s\<lparr>ca_crt := certificate_pem E der,
                       tls_crt := certificate_pem E der @ tls_crt s,
                       tls_key := key_pem E k\<rparr>"
  have ca: "createCACertificate E w cn (x509_ParsePKCS1PrivateKey E (go_bytes (Bytes block)))
              = (Inr (x509_MarshalPKCS1PrivateKey E k, der), w1)"
    unfolding w1_def by (rule createCACertificate_ok [OF sn k der])
  have u: "client_Update E w1 name s'
             = (None, w1\<lparr>requests := requests w1 @ [Update name s'],
                         objects := (objects w1)(name \<mapsto> s')\<rparr>)"
    using upd obj by (simp add: client_Update_None w1_def)
  have run: "createCASecret E w mco True name cn
             = (Returns (None, True), w1\<lparr>requests := requests w1 @ [Update name s'],
                         objects := (objects w1)(name \<mapsto> s')\<rparr>)"
    by (simp add: createCASecret_def get key ca pemEncode_def Let_def
          certificate_pem_def [symmetric] key_pem_def [symmetric] s'_def [symmetric] u)
  have two: "\<And>cs :: bytes list. cs \<noteq> [] \<Longrightarrow> 2 \<le> length (certificate_pem E der # cs)"
    by (case_tac cs) simp_all
  show ?thesis
    unfolding run s'_def [symmetric] using two by (auto simp: w1_def)
qed

lemma toy_renew_facts:
  "client_Get toy toy_ca_world ''server-ca'' = Inr toy_ca_secret"
  "fst (pem_Decode toy (tls_key toy_ca_secret)) = Some \<lparr>Type = ''RSA PRIVATE KEY'', Bytes = Some [9]\<rparr>"
  "rand_Int toy serialNumberLimit (ticks toy_ca_world) = Some 7"
  "(case x509_ParsePKCS1PrivateKey toy (go_bytes (Bytes \<lparr>Type = ''RSA PRIVATE KEY'', Bytes = Some [9]\<rparr>)) of
      None \<Rightarrow> rsa_GenerateKey toy (ticks toy_ca_world + 3) | Some k' \<Rightarrow> Some k') = Some (PrivateKey 9)"
  "x509_CreateCertificate toy (caTemplate toy (ticks toy_ca_world) 7 ''ca'')
     (caTemplate toy (ticks toy_ca_world) 7 ''ca'') (PublicKey (PrivateKey 9)) (PrivateKey 9) = Some [7, 150]"
  "updateFault toy ''server-ca'' = None"
  by (simp_all add: client_Get_def toy_def toy_ca_world_def toy_ca_secret_def go_bytes_def
        toy_CreateCertificate_def caTemplate_def)

lemma toy_pems:
  "certificate_pem toy [7, 150] = [1, 2, 7, 150]" "key_pem toy (PrivateKey 9) = [2, 1, 9]"
  by (simp_all add: certificate_pem_def key_pem_def toy_def toy_Encode_def go_bytes_def)

theorem createCASecret_renew_prepends_witness:
  "client_Get toy toy_ca_world ''server-ca'' = Inr toy_ca_secret
   \<and> (\<exists>w'. createCASecret toy toy_ca_world None True ''server-ca'' ''ca'' = (Returns (None, True), w')
         \<and> objects w' ''server-ca'' =
             Some (toy_ca_secret\<lparr>ca_crt := [1, 2, 7, 150],
                     tls_crt := [1, 2, 7, 150] @ tls_crt toy_ca_secret, tls_key := [2, 1, 9]\<rparr>))
   \<and> pem_chain toy ([1, 2, 7, 150] # [1, 2, 5, 200] # toy_chain)
        (\<lparr>Type = ''CERTIFICATE'', Bytes = Some [7, 150]\<rparr>
           # \<lparr>Type = ''CERTIFICATE'', Bytes = Some [5, 200]\<rparr> # toy_blocks)
   \<and> 2 \<le> length ([1, 2, 7, 150] # [1, 2, 5, 200] # toy_chain)"
proof -
  have ch: "pem_chain toy ([1, 2, 5, 200] # toy_chain)
              (\<lparr>Type = ''CERTIFICATE'', Bytes = Some [5, 200]\<rparr> # toy_blocks)"
    using toy_chain_ok(2) by (simp add: toy_def toy_chain_def)
  have tl: "tls_crt toy_ca_secret = concat ([1, 2, 5, 200] # toy_chain)"
    by (simp add: toy_ca_secret_def)
  have dec: "pem_Decode toy ([1, 2, 7, 150] @ tls_crt toy_ca_secret)
               = (Some \<lparr>Type = ''CERTIFICATE'', Bytes = Some [7, 150]\<rparr>, length [1, 2, 7, 150 :: 8 word])"
    by (simp add: toy_def toy_ca_secret_def)
  note renewal = createCASecret_renew_prepends [OF toy_renew_facts, of None, unfolded toy_pems]
  from renewal have run: "\<exists>w'. createCASecret toy toy_ca_world None True ''server-ca'' ''ca'' = (Returns (None, True), w')
         \<and> objects w' ''server-ca'' =
             Some (toy_ca_secret\<lparr>ca_crt := [1, 2, 7, 150],
                     tls_crt := [1, 2, 7, 150] @ tls_crt toy_ca_secret, tls_key := [2, 1, 9]\<rparr>)"
    by blast
  from renewal ch tl dec have "pem_chain toy ([1, 2, 7, 150] # [1, 2, 5, 200] # toy_chain)
        (\<lparr>Type = ''CERTIFICATE'', Bytes = Some [7, 150]\<rparr>
           # \<lparr>Type = ''CERTIFICATE'', Bytes = Some [5, 200]\<rparr> # toy_blocks)"
    by simp
  with run toy_renew_facts(1) show ?thesis by simp
qed

text \<open>
  C3 at its failing input. An existing CA bundle whose stored key is no PEM block: line 140
  gets a nil block from \<^verbatim>\<open>pem.Decode\<close>, line 141 reads \<^verbatim>\<open>block.Bytes\<close>, and the renewal
  panics before the fallback to a fresh key; nothing is written and the bundle stays as it
  was. The drift check of \<^verbatim>\<open>createCertSecret\<close> (line 256) tests the block for nil, this
  path does not.
\<close>

theorem createCASecret_renew_non_pem_key_panics:
  "client_Get toy toy_bad_key_world ''server-ca'' = Inr (toy_rotated_ca\<lparr>tls_key := [9]\<rparr>)
   \<and> fst (pem_Decode toy [9]) = None
   \<and> fst (createCASecret toy toy_bad_key_world None True ''server-ca'' ''ca'')
       = Panics NilPointerDereference
   \<and> requests (snd (createCASecret toy toy_bad_key_world None True ''server-ca'' ''ca'')) = []
   \<and> objects (snd (createCASecret toy toy_bad_key_world None True ''server-ca'' ''ca'')) ''server-ca''
       = Some (toy_rotated_ca\<lparr>tls_key := [9]\<rparr>)"
proof -
  have g: "client_Get toy toy_bad_key_world ''server-ca'' = Inr (toy_rotated_ca\<lparr>tls_key := [9]\<rparr>)"
    by (simp add: client_Get_def toy_def toy_bad_key_world_def)
  have k: "fst (pem_Decode toy [9]) = None"
    by (simp add: toy_def)
  have ca: "createCASecret toy toy_bad_key_world None True ''server-ca'' ''ca''
       = (Panics NilPointerDereference, toy_bad_key_world)"
    by (simp add: createCASecret_def g k)
  show ?thesis
    by (simp add: ca g k) (simp add: toy_bad_key_world_def)
qed

text \<open>
  C8. \<^verbatim>\<open>createCASecret\<close> without renewal on a store that lacks the bundle issues exactly
  one write, the creation; the same call repeated returns \<^verbatim>\<open>wasModified = false\<close> and
  leaves the world as it is: no write request, the same stored bytes.
\<close>

theorem createCASecret_idempotent:
  assumes get: "getFault E name = None" and absent: "objects w name = None"
    and create: "createFault E name = None"
    and owner: "mco \<noteq> None \<longrightarrow> ownerReferenceFault E = None"
    and sn: "rand_Int E serialNumberLimit (ticks w) = Some sn"
    and k: "rsa_GenerateKey E (ticks w + 3) = Some k"
    and der: "x509_CreateCertificate E (caTemplate E (ticks w) sn cn) (caTemplate E (ticks w) sn cn)
           (PublicKey k) k = Some der"
  shows "\<exists>w1 s. createCASecret E w mco False name cn = (Returns (None, True), w1)
           \<and> requests w1 = requests w @ [Create name s]
           \<and> objects w1 name = Some s
           \<and> ca_crt s = certificate_pem E der \<and> tls_crt s = certificate_pem E der
           \<and> tls_key s = key_pem E k
           \<and> createCASecret E w1 mco False name cn = (Returns (None, False), w1)"
proof -
  define s0 where "s0 = \<lparr>Labels = [(BackupLabelName E, BackupLabelValue E)], OwnerReferences = [],
                         ca_crt = certificate_pem E der, tls_crt = certificate_pem E der,
                         tls_key = key_pem E k\<rparr>"
  define s where "s = (case mco of None \<Rightarrow> s0 | Some m \<Rightarrow> s0\<lparr>OwnerReferences := [m]\<rparr>)"
  define w0 where "w0 = w\<lparr>ticks := ticks w + 4\<rparr>"
  define w1 where "w1 = w0\<lparr>requests := requests w0 @ [Create name s],
                           objects := (objects w0)(name \<mapsto> s)\<rparr>"
  have g: "client_Get E w name = Inl NotFound"
    using get absent by (simp add: client_Get_def)
  have ca: "createCACertificate E w cn None = (Inr (x509_MarshalPKCS1PrivateKey E k, der), w0)"
    using createCACertificate_ok [OF sn _ der, of None] k by (simp add: w0_def)
  have ref: "(case mco of None \<Rightarrow> Inr s0 | Some m \<Rightarrow> SetControllerReference E m s0) = Inr s"
    using owner by (cases mco) (simp_all add: s_def SetControllerReference_def)
  have cr: "client_Create E w0 name s = (None, w1)"
    using create absent by (simp add: client_Create_None w0_def w1_def)
  have first: "createCASecret E w mco False name cn = (Returns (None, True), w1)"
    using ref cr
    by (cases mco)
       (simp_all add: createCASecret_def g ca pemEncode_def Let_def certificate_pem_def
          key_pem_def s0_def)
  have g1: "client_Get E w1 name = Inr s"
    using get by (simp add: client_Get_def w1_def)
  have lbl: "AddBackupLabelToSecretObj E w1 name s = (None, w1)"
    by (cases mco) (simp_all add: AddBackupLabelToSecretObj_def s_def s0_def)
  have second: "createCASecret E w1 mco False name cn = (Returns (None, False), w1)"
    by (simp add: createCASecret_def g1 lbl)
  have flds: "ca_crt s = certificate_pem E der" "tls_crt s = certificate_pem E der"
    "tls_key s = key_pem E k"
    by (cases mco; simp add: s_def s0_def)+
  have w1f: "requests w1 = requests w @ [Create name s]" "objects w1 name = Some s"
    by (simp_all add: w1_def w0_def)
  from first second flds w1f show ?thesis by blast
qed

lemma toy_create_facts:
  "getFault toy ''server-ca'' = None" "objects empty_world ''server-ca'' = None"
  "createFault toy ''server-ca'' = None"
  "Some ''mco'' \<noteq> None \<longrightarrow> ownerReferenceFault toy = None"
  "rand_Int toy serialNumberLimit (ticks empty_world) = Some 7"
  "rsa_GenerateKey toy (ticks empty_world + 3) = Some (PrivateKey 9)"
  "x509_CreateCertificate toy (caTemplate toy (ticks empty_world) 7 ''ca'')
     (caTemplate toy (ticks empty_world) 7 ''ca'') (PublicKey (PrivateKey 9)) (PrivateKey 9) = Some [7, 150]"
  by (simp_all add: toy_def empty_world_def toy_CreateCertificate_def caTemplate_def)

theorem createCASecret_idempotent_witness:
  "objects empty_world ''server-ca'' = None
   \<and> (\<exists>w1 s. createCASecret toy empty_world (Some ''mco'') False ''server-ca'' ''ca''
                 = (Returns (None, True), w1)
         \<and> requests w1 = requests empty_world @ [Create ''server-ca'' s]
         \<and> objects w1 ''server-ca'' = Some s
         \<and> tls_crt s = [1, 2, 7, 150]
         \<and> createCASecret toy w1 (Some ''mco'') False ''server-ca'' ''ca'' = (Returns (None, False), w1))"
  using createCASecret_idempotent [OF toy_create_facts] toy_create_facts(2)
  unfolding toy_pems by blast

section \<open>The leaf certificate manager: issuer bytes, drift, malformed material\<close>

lemma getCA_Returns:
  assumes "getCA E w isServer = Returns (Inr (caCert, caKey, caCertBytes))"
  shows "\<exists>ca b1 rest b2.
           client_Get E w (issuer_name E isServer) = Inr ca
         \<and> caCertBytes = first_block E (tls_crt ca)
         \<and> fst (pem_Decode E (tls_crt ca)) = Some b1
         \<and> x509_ParseCertificates E (go_bytes (Bytes b1)) = Some (caCert # rest)
         \<and> fst (pem_Decode E (tls_key ca)) = Some b2
         \<and> x509_ParsePKCS1PrivateKey E (go_bytes (Bytes b2)) = Some caKey"
  using assms
  by (auto simp: getCA_def issuer_name_def first_block_def Let_def
      split: sum.splits option.splits list.splits if_splits)

lemma createCertSecret_created:
  assumes "client_Get E w name = Inl NotFound"
    and "createCertSecret E w mco isRenew name isServer cn ou dns ips = (Returns None, w')"
  shows "\<exists>caCert caKey caCertBytes keyBytes certBytes leaf w1.
           getCA E w isServer = Returns (Inr (caCert, caKey, caCertBytes))
         \<and> createCertificate E w isServer cn ou dns ips caCert caKey None
             = (Returns (Inr (keyBytes, certBytes)), w1)
         \<and> objects w name = None
         \<and> objects w' = (objects w)(name \<mapsto> leaf)
         \<and> requests w' = requests w @ [Create name leaf]
         \<and> ca_crt leaf = caCertBytes
         \<and> tls_crt leaf = certificate_pem E certBytes
         \<and> tls_key leaf = pem_Encode E \<lparr>Type = ''RSA PRIVATE KEY'', Bytes = Some keyBytes\<rparr>"
proof -
  from assms obtain caCert caKey caCertBytes where
    ca: "getCA E w isServer = Returns (Inr (caCert, caKey, caCertBytes))"
    by (auto simp: createCertSecret_def split: outcome.splits sum.splits)
  from assms ca obtain keyBytes certBytes w1 where
    cc: "createCertificate E w isServer cn ou dns ips caCert caKey None
             = (Returns (Inr (keyBytes, certBytes)), w1)"
    by (auto simp: createCertSecret_def split: outcome.splits sum.splits prod.splits)
  have fr: "objects w1 = objects w" "requests w1 = requests w"
    using cc by (auto simp: createCertificate_def Let_def split: option.splits outcome.splits)
  define s0 where "s0 = \<lparr>Labels = [(BackupLabelName E, BackupLabelValue E)], OwnerReferences = [],
      ca_crt = caCertBytes, tls_crt = certificate_pem E certBytes,
      tls_key = pem_Encode E \<lparr>Type = ''RSA PRIVATE KEY'', Bytes = Some keyBytes\<rparr>\<rparr>"
  from assms obtain leaf where
    ref: "(case mco of None \<Rightarrow> Inr s0 | Some m \<Rightarrow> SetControllerReference E m s0) = Inr leaf"
    and cr: "client_Create E w1 name leaf = (None, w')"
    by (cases mco)
       (auto simp: createCertSecret_def ca cc pemEncode_def Let_def s0_def certificate_pem_def
          split: sum.splits prod.splits option.splits)
  have flds: "ca_crt leaf = caCertBytes" "tls_crt leaf = certificate_pem E certBytes"
     "tls_key leaf = pem_Encode E \<lparr>Type = ''RSA PRIVATE KEY'', Bytes = Some keyBytes\<rparr>"
    using ref by (cases mco; auto simp: s0_def SetControllerReference_def split: option.splits)+
  from cr have "objects w' = (objects w)(name \<mapsto> leaf)" "requests w' = requests w @ [Create name leaf]"
    "objects w name = None"
    by (auto simp: client_Create_None fr)
  with ca cc flds show ?thesis by blast
qed

lemma createCertSecret_renewed:
  assumes "client_Get E w name = Inr old"
    and "driftCheck E name old isRenew dns = Returns True"
    and "createCertSecret E w mco isRenew name isServer cn ou dns ips = (Returns None, w')"
  shows "\<exists>caCert caKey caCertBytes block keyBytes certBytes leaf w1.
           getCA E w isServer = Returns (Inr (caCert, caKey, caCertBytes))
         \<and> fst (pem_Decode E (tls_key old)) = Some block
         \<and> createCertificate E w isServer cn ou dns ips caCert caKey
               (x509_ParsePKCS1PrivateKey E (go_bytes (Bytes block)))
             = (Returns (Inr (keyBytes, certBytes)), w1)
         \<and> leaf = old\<lparr>ca_crt := caCertBytes, tls_crt := certificate_pem E certBytes,
                  tls_key := pem_Encode E \<lparr>Type = ''RSA PRIVATE KEY'', Bytes = Some keyBytes\<rparr>\<rparr>
         \<and> objects w' = (objects w)(name \<mapsto> leaf)
         \<and> requests w' = requests w @ [Update name leaf]"
proof -
  from assms obtain caCert caKey caCertBytes where
    ca: "getCA E w isServer = Returns (Inr (caCert, caKey, caCertBytes))"
    by (auto simp: createCertSecret_def split: outcome.splits sum.splits)
  from assms ca obtain block where
    key: "fst (pem_Decode E (tls_key old)) = Some block"
    by (auto simp: createCertSecret_def split: option.splits)
  from assms ca key obtain keyBytes certBytes w1 where
    cc: "createCertificate E w isServer cn ou dns ips caCert caKey
           (x509_ParsePKCS1PrivateKey E (go_bytes (Bytes block)))
             = (Returns (Inr (keyBytes, certBytes)), w1)"
    by (auto simp: createCertSecret_def Let_def split: outcome.splits sum.splits prod.splits)
  have fr: "objects w1 = objects w" "requests w1 = requests w"
    using cc by (auto simp: createCertificate_def Let_def split: option.splits outcome.splits)
  define leaf where "leaf = old\<lparr>ca_crt := caCertBytes, tls_crt := certificate_pem E certBytes,
                  tls_key := pem_Encode E \<lparr>Type = ''RSA PRIVATE KEY'', Bytes = Some keyBytes\<rparr>\<rparr>"
  from assms have cr: "client_Update E w1 name leaf = (None, w')"
    by (auto simp: createCertSecret_def ca key cc pemEncode_def Let_def leaf_def certificate_pem_def
          split: prod.splits option.splits)
  from cr have "objects w' = (objects w)(name \<mapsto> leaf)" "requests w' = requests w @ [Update name leaf]"
    by (auto simp: client_Update_None fr)
  with ca key cc leaf_def show ?thesis by blast
qed

lemma toy_getCA:
  "getCA toy toy_leaf_world True
     = Returns (Inr (the (toy_ParseCertificate [7, 150]), PrivateKey 9, [1, 2, 7, 150]))"
  by (simp add: getCA_def client_Get_def toy_def toy_leaf_world_def toy_rotated_ca_def
        go_bytes_def toy_ParseCertificates_def Let_def)

lemma toy_driftCheck:
  "driftCheck toy ''server'' toy_leaf False (Some toy_hosts) = Returns True"
  by (simp add: driftCheck_def toy_def toy_leaf_def toy_hosts_def elements_def toy_name_def)

lemma toy_leaf_createCertificate:
  "createCertificate toy toy_leaf_world True ''hhh'' None (Some toy_hosts) None caCert caKey
      (Some (PrivateKey 8))
    = (Returns (Inr ([8], [7, 110, 3, 1, 2])), toy_leaf_world\<lparr>ticks := 3\<rparr>)"
  by (simp add: createCertificate_def toy_def toy_leaf_world_def createCertificate_dnsNames_def
        reslice_def append_slice_def set_first_def cap_def elements_def leafTemplate_def
        toy_CreateCertificate_def toy_hosts_def)

lemma toy_renewal_run:
  "fst (createCertSecret toy toy_leaf_world None False ''server'' True ''hhh'' None
          (Some toy_hosts) None) = Returns None"
  "objects (snd (createCertSecret toy toy_leaf_world None False ''server'' True ''hhh'' None
          (Some toy_hosts) None)) ''server'' = Some toy_renewed_leaf"
  "requests (snd (createCertSecret toy toy_leaf_world None False ''server'' True ''hhh'' None
          (Some toy_hosts) None)) = [Update ''server'' toy_renewed_leaf]"
proof -
  have g: "client_Get toy toy_leaf_world ''server'' = Inr toy_leaf"
    by (simp add: client_Get_def toy_def toy_leaf_world_def)
  have k: "fst (pem_Decode toy (tls_key toy_leaf)) = Some \<lparr>Type = ''RSA PRIVATE KEY'', Bytes = Some [8]\<rparr>"
    by (simp add: toy_def toy_leaf_def)
  have p: "x509_ParsePKCS1PrivateKey toy (go_bytes (Some [8])) = Some (PrivateKey 8)"
    by (simp add: toy_def go_bytes_def)
  have e: "pemEncode toy [7, 110, 3, 1, 2] [8] = ([1, 5, 7, 110, 3, 1, 2], [2, 1, 8])"
    by (simp add: pemEncode_def toy_def toy_Encode_def go_bytes_def)
  have l: "toy_leaf\<lparr>ca_crt := [1, 2, 7, 150], tls_crt := [1, 5, 7, 110, 3, 1, 2], tls_key := [2, 1, 8]\<rparr>
             = toy_renewed_leaf"
    by (simp add: toy_leaf_def toy_renewed_leaf_def)
  have u: "client_Update toy (toy_leaf_world\<lparr>ticks := 3\<rparr>) ''server'' toy_renewed_leaf
            = (None, toy_leaf_world\<lparr>ticks := 3, requests := [Update ''server'' toy_renewed_leaf],
                 objects := (objects toy_leaf_world)(''server'' \<mapsto> toy_renewed_leaf)\<rparr>)"
    by (simp add: client_Update_def toy_def toy_leaf_world_def Let_def)
  have run: "createCertSecret toy toy_leaf_world None False ''server'' True ''hhh'' None
          (Some toy_hosts) None
       = (Returns None, toy_leaf_world\<lparr>ticks := 3, requests := [Update ''server'' toy_renewed_leaf],
                 objects := (objects toy_leaf_world)(''server'' \<mapsto> toy_renewed_leaf)\<rparr>)"
    by (simp add: createCertSecret_def g toy_driftCheck toy_getCA k p toy_leaf_createCertificate
          e l u)
  show "fst (createCertSecret toy toy_leaf_world None False ''server'' True ''hhh'' None
          (Some toy_hosts) None) = Returns None"
    "objects (snd (createCertSecret toy toy_leaf_world None False ''server'' True ''hhh'' None
          (Some toy_hosts) None)) ''server'' = Some toy_renewed_leaf"
    "requests (snd (createCertSecret toy toy_leaf_world None False ''server'' True ''hhh'' None
          (Some toy_hosts) None)) = [Update ''server'' toy_renewed_leaf]"
    by (simp_all add: run)
qed

text \<open>
  C6, as the code has it. A leaf bundle that is created or renewed stores in \<^verbatim>\<open>ca.crt\<close> the
  bytes of the first PEM block of the issuing CA bundle's chain, that is the current CA
  certificate alone; it is the whole chain only while the chain holds one block.
\<close>

theorem createCertSecret_ca_crt_first_block:
  assumes "issues E w isRenew name dns"
    and "createCertSecret E w mco isRenew name isServer cn ou dns ips = (Returns None, w')"
  shows "\<exists>ca leaf. client_Get E w (issuer_name E isServer) = Inr ca
           \<and> objects w' name = Some leaf
           \<and> ca_crt leaf = first_block E (tls_crt ca)"
proof (cases "client_Get E w name")
  case (Inl e)
  with assms(1) have "client_Get E w name = Inl NotFound" by (simp add: issues_def)
  from createCertSecret_created [OF this assms(2)] getCA_Returns show ?thesis
    by (metis fun_upd_same)
next
  case (Inr old)
  with assms(1) have "driftCheck E name old isRenew dns = Returns True" by (simp add: issues_def)
  from createCertSecret_renewed [OF Inr this assms(2)] obtain caCert caKey caCertBytes leaf where
    "getCA E w isServer = Returns (Inr (caCert, caKey, caCertBytes))"
    "objects w' = (objects w)(name \<mapsto> leaf)" "ca_crt leaf = caCertBytes"
    by auto
  with getCA_Returns [of E w isServer caCert caKey caCertBytes] show ?thesis
    by auto
qed

lemma toy_issues: "issues toy toy_leaf_world False ''server'' (Some toy_hosts)"
  by (simp add: issues_def client_Get_def toy_def toy_leaf_world_def toy_driftCheck [unfolded toy_def])

lemma toy_renewal_eq:
  "createCertSecret toy toy_leaf_world None False ''server'' True ''hhh'' None (Some toy_hosts) None
     = (Returns None, snd (createCertSecret toy toy_leaf_world None False ''server'' True ''hhh''
                              None (Some toy_hosts) None))"
  using toy_renewal_run(1) by (simp add: prod_eq_iff)

theorem createCertSecret_ca_crt_first_block_witness:
  "issues toy toy_leaf_world False ''server'' (Some toy_hosts)
   \<and> (\<exists>ca leaf. client_Get toy toy_leaf_world (issuer_name toy True) = Inr ca
         \<and> objects (snd (createCertSecret toy toy_leaf_world None False ''server'' True ''hhh''
                            None (Some toy_hosts) None)) ''server'' = Some leaf
         \<and> ca_crt leaf = first_block toy (tls_crt ca))"
  using createCertSecret_ca_crt_first_block [OF toy_issues toy_renewal_eq] toy_issues
  by simp

text \<open>
  Against C6 as stated: the issuer's chain holds two certificates, the renewed leaf stores
  the first alone.
\<close>

theorem createCertSecret_ca_crt_not_whole_chain:
  "fst (createCertSecret toy toy_leaf_world None False ''server'' True ''hhh'' None
          (Some toy_hosts) None) = Returns None
   \<and> map_option ca_crt (objects (snd (createCertSecret toy toy_leaf_world None False ''server''
          True ''hhh'' None (Some toy_hosts) None)) ''server'') = Some [1, 2, 7, 150]
   \<and> map_option tls_crt (objects toy_leaf_world ''server-ca'') = Some [1, 2, 7, 150, 1, 2, 5, 200]
   \<and> map_option ca_crt (objects (snd (createCertSecret toy toy_leaf_world None False ''server''
          True ''hhh'' None (Some toy_hosts) None)) ''server'')
       \<noteq> map_option tls_crt (objects toy_leaf_world ''server-ca'')"
proof -
  have ca: "objects toy_leaf_world ''server-ca'' = Some toy_rotated_ca"
    by (simp add: toy_leaf_world_def)
  show ?thesis
    by (simp add: toy_renewal_run ca toy_renewed_leaf_def toy_rotated_ca_def)
qed










lemma driftCheck_unparsable_panics:
  assumes "name = ServerCerts E" and "fst (pem_Decode E (tls_crt s)) = Some block"
    and "Bytes block = Some der" and "x509_ParseCertificate E der = None"
    and "supplied_dns dns \<noteq> []"
  shows "driftCheck E name s False dns = Panics NilPointerDereference"
  using assms
  by (cases "supplied_dns dns") (auto simp: driftCheck_def supplied_dns_def)

text \<open>
  C5 at its failing inputs. A stored server certificate that is a PEM block around bytes
  that do not parse sets \<^verbatim>\<open>isRenew\<close> and then reads \<^verbatim>\<open>serverCrt.DNSNames\<close> of the nil
  certificate; a stored key that is no PEM block leaves \<^verbatim>\<open>block\<close> nil where
  \<^verbatim>\<open>block.Bytes\<close> is read. Both calls end in a nil-pointer panic.
\<close>

theorem malformed_stored_material_panics:
  "createCertSecret toy toy_bad_leaf_world None False ''server'' True ''hhh'' None
     (Some toy_hosts) None = (Panics NilPointerDereference, toy_bad_leaf_world)
   \<and> createCASecret toy toy_bad_key_world None True ''server-ca'' ''ca''
       = (Panics NilPointerDereference, toy_bad_key_world)"
proof -
  have g: "client_Get toy toy_bad_leaf_world ''server'' = Inr (toy_leaf\<lparr>tls_crt := [1, 1, 9]\<rparr>)"
    by (simp add: client_Get_def toy_def toy_bad_leaf_world_def)
  have d: "driftCheck toy ''server'' (toy_leaf\<lparr>tls_crt := [1, 1, 9]\<rparr>) False (Some toy_hosts)
             = Panics NilPointerDereference"
    by (rule driftCheck_unparsable_panics [where block = "\<lparr>Type = ''CERTIFICATE'', Bytes = Some [9]\<rparr>"
          and der = "[9]"])
       (simp_all add: toy_def supplied_dns_def toy_hosts_def elements_def)
  have leaf: "createCertSecret toy toy_bad_leaf_world None False ''server'' True ''hhh'' None
     (Some toy_hosts) None = (Panics NilPointerDereference, toy_bad_leaf_world)"
    by (simp add: createCertSecret_def g d)
  have g': "client_Get toy toy_bad_key_world ''server-ca'' = Inr (toy_rotated_ca\<lparr>tls_key := [9]\<rparr>)"
    by (simp add: client_Get_def toy_def toy_bad_key_world_def)
  have k: "fst (pem_Decode toy [9]) = None"
    by (simp add: toy_def)
  have ca: "createCASecret toy toy_bad_key_world None True ''server-ca'' ''ca''
       = (Panics NilPointerDereference, toy_bad_key_world)"
    by (simp add: createCASecret_def g' k)
  from leaf ca show ?thesis by simp
qed

section \<open>The orchestrator: what a pass writes, and in which order\<close>

lemma writes_only_refl: "writes_only names w w"
  by (simp add: writes_only_def)

lemma writes_only_ticks: "writes_only names w (w\<lparr>ticks := t\<rparr>)"
  by (simp add: writes_only_def)

lemma writes_only_trans:
  "writes_only A w w1 \<Longrightarrow> writes_only B w1 w2 \<Longrightarrow> writes_only (A \<union> B) w w2"
  by (fastforce simp: writes_only_def)

lemma writes_only_Create: "writes_only {name} w (snd (client_Create E w name s))"
  by (auto simp: writes_only_def client_Create_def Let_def split: option.splits)

lemma writes_only_Update: "writes_only {name} w (snd (client_Update E w name s))"
  by (auto simp: writes_only_def client_Update_def Let_def split: option.splits)

lemma writes_only_AddBackupLabel:
  "writes_only {name} w (snd (AddBackupLabelToSecretObj E w name s))"
  using writes_only_Update [of name w E]
  by (auto simp: AddBackupLabelToSecretObj_def writes_only_refl split: option.splits)

lemma writes_only_createCACertificate:
  "writes_only {} w (snd (createCACertificate E w cn caKey))"
  by (auto simp: writes_only_def createCACertificate_frame)

lemma writes_only_createCertificate:
  "writes_only {} w (snd (createCertificate E w isServer cn ou dns ips caCert caKey key))"
  by (auto simp: writes_only_def createCertificate_def Let_def split: option.splits outcome.splits)

lemma wo_CA: "createCACertificate E w cn k = (x, w0) \<Longrightarrow> writes_only {name} w w0"
  using writes_only_createCACertificate [of w E cn k]
  by (auto simp: writes_only_def)

lemma wo_cert:
  "createCertificate E w isServer cn ou dns ips caCert caKey key = (x, w0)
     \<Longrightarrow> writes_only {name} w w0"
  using writes_only_createCertificate [of w E isServer cn ou dns ips caCert caKey key]
  by (auto simp: writes_only_def)

lemma wo_Update:
  "client_Update E w0 name s = (e, w2) \<Longrightarrow> writes_only {name} w w0 \<Longrightarrow> writes_only {name} w w2"
  using writes_only_trans [OF _ writes_only_Update, of "{name}" w w0 name E s] by simp

lemma wo_Create:
  "client_Create E w0 name s = (e, w2) \<Longrightarrow> writes_only {name} w w0 \<Longrightarrow> writes_only {name} w w2"
  using writes_only_trans [OF _ writes_only_Create, of "{name}" w w0 name E s] by simp

lemma wo_Label:
  "AddBackupLabelToSecretObj E w0 name s = (e, w2) \<Longrightarrow> writes_only {name} w w0
     \<Longrightarrow> writes_only {name} w w2"
  using writes_only_trans [OF _ writes_only_AddBackupLabel, of "{name}" w w0 name E s] by simp

lemma createCASecret_writes_only:
  "createCASecret E w mco isRenew name cn = (r, w') \<Longrightarrow> writes_only {name} w w'"
  unfolding createCASecret_def Let_def
  by (auto split: sum.splits option.splits prod.splits if_splits
      intro: wo_CA wo_Update wo_Create wo_Label writes_only_refl)

lemma createCertSecret_writes_only:
  "createCertSecret E w mco isRenew name isServer cn ou dns ips = (r, w')
     \<Longrightarrow> writes_only {name} w w'"
  unfolding createCertSecret_def Let_def
  by (auto split: sum.splits option.splits prod.splits if_splits outcome.splits
      intro: wo_cert wo_Update wo_Create wo_Label writes_only_refl)

lemma createCASecret_created:
  assumes "createCASecret E w mco False name cn = (Returns (None, True), w1)"
  shows "\<exists>s. objects w name = None \<and> objects w1 = (objects w)(name \<mapsto> s)
           \<and> requests w1 = requests w @ [Create name s]"
proof -
  from assms have g: "client_Get E w name = Inl NotFound"
    by (auto simp: createCASecret_def split: sum.splits if_splits prod.splits option.splits)
  obtain x w0 where ca: "createCACertificate E w cn None = (x, w0)"
    by (cases "createCACertificate E w cn None")
  have fr: "objects w0 = objects w" "requests w0 = requests w"
    using createCACertificate_frame [of E w cn None] ca by simp_all
  from assms obtain s where "client_Create E w0 name s = (None, w1)"
    by (auto simp: createCASecret_def g ca Let_def split: sum.splits prod.splits option.splits)
  then show ?thesis
    by (auto simp: client_Create_None fr)
qed

lemma createCASecret_absent_modified:
  assumes "objects w name = None"
    and "createCASecret E w mco False name cn = (Returns (None, u), w1)"
  shows "u"
proof -
  from assms(1) have "\<exists>e. client_Get E w name = Inl e"
    by (auto simp: client_Get_def split: option.splits)
  then obtain e where g: "client_Get E w name = Inl e" ..
  from assms(2) show ?thesis
    by (auto simp: createCASecret_def g Let_def split: sum.splits prod.splits option.splits if_splits)
qed

lemma createCertSecret_forced:
  assumes present: "objects w name = Some old"
    and run: "createCertSecret E w mco True name isServer cn ou dns ips = (Returns None, w')"
  shows "\<exists>caCert caKey caCertBytes keyBytes certBytes leaf key w1.
           getCA E w isServer = Returns (Inr (caCert, caKey, caCertBytes))
         \<and> createCertificate E w isServer cn ou dns ips caCert caKey key
             = (Returns (Inr (keyBytes, certBytes)), w1)
         \<and> ca_crt leaf = caCertBytes \<and> tls_crt leaf = certificate_pem E certBytes
         \<and> objects w' = (objects w)(name \<mapsto> leaf)
         \<and> requests w' = requests w @ [Update name leaf]"
proof (cases "client_Get E w name")
  case (Inl e)
  show ?thesis
  proof (cases "e = NotFound")
    case False
    with run Inl show ?thesis by (simp add: createCertSecret_def)
  next
    case True
    with Inl have g: "client_Get E w name = Inl NotFound" by simp
    from createCertSecret_created [OF g run] have "objects w name = None" by blast
    with present show ?thesis by simp
  qed
next
  case (Inr s)
  with present have s: "s = old" by (simp add: client_Get_Inr)
  have d: "driftCheck E name old True dns = Returns True" by (simp add: driftCheck_def)
  from createCertSecret_renewed [OF Inr [unfolded s] d run] show ?thesis
    by (elim exE conjE) (intro exI conjI; (assumption | simp))
qed

lemma pass_steps:
  assumes "CreateObservabilityCerts E w mco ingress = (Returns None, w')"
  shows "\<exists>u1 w1 u2 w2 hosts w3.
     createCASecret E w mco False (ServerCACerts E) serverCACertifcateCN = (Returns (None, u1), w1)
   \<and> createCASecret E w1 mco False (ClientCACerts E) clientCACertificateCN = (Returns (None, u2), w2)
   \<and> getHosts E ingress = Inr hosts
   \<and> createCertSecret E w2 mco u1 (ServerCerts E) True (ServerCertCN E) None (Some hosts) None
       = (Returns None, w3)
   \<and> createCertSecret E w3 mco u2 (GrafanaCerts E) False (GrafanaCN E) None None None
       = (Returns None, w')"
  using assms unfolding CreateObservabilityCerts_def
  by (auto split: option.splits prod.splits outcome.splits sum.splits)

lemma writes_only_other:
  "writes_only {a} w w' \<Longrightarrow> n \<noteq> a \<Longrightarrow> objects w' n = objects w n"
  by (simp add: writes_only_def)

lemma writes_only_requests:
  "writes_only names w w' \<Longrightarrow> \<exists>extra. requests w' = requests w @ extra"
  by (auto simp: writes_only_def)

lemma forced_renewal_under:
  assumes ca: "objects w2 caName = Some ca" and caName: "caName = issuer_name E isServer"
    and old: "objects w2 leafName = Some old" and ne: "leafName \<noteq> caName"
    and run: "createCertSecret E w2 mco True leafName isServer cn ou dns ips = (Returns None, w3)"
  shows "\<exists>leaf b1 caCert rest b2 caKey template k der.
        objects w3 caName = Some ca \<and> objects w3 leafName = Some leaf
      \<and> requests w3 = requests w2 @ [Update leafName leaf]
      \<and> ca_crt leaf = first_block E (tls_crt ca)
      \<and> fst (pem_Decode E (tls_crt ca)) = Some b1
      \<and> x509_ParseCertificates E (go_bytes (Bytes b1)) = Some (caCert # rest)
      \<and> fst (pem_Decode E (tls_key ca)) = Some b2
      \<and> x509_ParsePKCS1PrivateKey E (go_bytes (Bytes b2)) = Some caKey
      \<and> x509_CreateCertificate E template caCert (PublicKey k) caKey = Some der
      \<and> tls_crt leaf = certificate_pem E der"
proof -
  from createCertSecret_forced [OF old run]
  obtain caCert caKey caCertBytes keyBytes certBytes leaf key w1 where
    g: "getCA E w2 isServer = Returns (Inr (caCert, caKey, caCertBytes))"
    and cc: "createCertificate E w2 isServer cn ou dns ips caCert caKey key
             = (Returns (Inr (keyBytes, certBytes)), w1)"
    and lf: "ca_crt leaf = caCertBytes" "tls_crt leaf = certificate_pem E certBytes"
    and ob: "objects w3 = (objects w2)(leafName \<mapsto> leaf)"
    and rq: "requests w3 = requests w2 @ [Update leafName leaf]"
    by blast
  from getCA_Returns [OF g] ca caName
  obtain b1 rest b2 where
    p: "caCertBytes = first_block E (tls_crt ca)"
       "fst (pem_Decode E (tls_crt ca)) = Some b1"
       "x509_ParseCertificates E (go_bytes (Bytes b1)) = Some (caCert # rest)"
       "fst (pem_Decode E (tls_key ca)) = Some b2"
       "x509_ParsePKCS1PrivateKey E (go_bytes (Bytes b2)) = Some caKey"
    by (auto simp: client_Get_Inr)
  from cc obtain template k where
    sg: "x509_CreateCertificate E template caCert (PublicKey k) caKey = Some certBytes"
    by (auto simp: createCertificate_def Let_def split: option.splits outcome.splits)
  have "objects w3 caName = Some ca" "objects w3 leafName = Some leaf"
    using ob ca ne by simp_all
  with rq lf p sg show ?thesis by blast
qed

lemma renewed_underI:
  assumes "objects w' caName = Some ca" "objects w' leafName = Some leaf"
    and "requests w' = requests w @ pre @ [Create caName ca] @ mid @ [Update leafName leaf] @ post"
    and "ca_crt leaf = first_block E (tls_crt ca)"
    and "fst (pem_Decode E (tls_crt ca)) = Some b1"
    and "x509_ParseCertificates E (go_bytes (Bytes b1)) = Some (caCert # rest)"
    and "fst (pem_Decode E (tls_key ca)) = Some b2"
    and "x509_ParsePKCS1PrivateKey E (go_bytes (Bytes b2)) = Some caKey"
    and "x509_CreateCertificate E template caCert (PublicKey k) caKey = Some der"
    and "tls_crt leaf = certificate_pem E der"
  shows "renewed_under E w w' caName leafName"
  unfolding renewed_under_def using assms by blast

text \<open>
  C10, as the code has it. In a pass that returns without error: if the server CA bundle was
  absent at the start (so the pass created it and \<^verbatim>\<open>wasModified\<close> is true) and the server
  leaf bundle was present, the leaf was renewed under the new CA in that pass, whatever DNS
  names its stored certificate had; the same for the client CA and the grafana leaf.
\<close>

theorem CreateObservabilityCerts_new_CA_renews_leaf:
  assumes run: "CreateObservabilityCerts E w mco ingressCtlCrdExists = (Returns None, w')"
    and names: "distinct [ServerCACerts E, ClientCACerts E, ServerCerts E, GrafanaCerts E]"
  shows "(objects w (ServerCACerts E) = None \<and> objects w (ServerCerts E) \<noteq> None
            \<longrightarrow> renewed_under E w w' (ServerCACerts E) (ServerCerts E))
       \<and> (objects w (ClientCACerts E) = None \<and> objects w (GrafanaCerts E) \<noteq> None
            \<longrightarrow> renewed_under E w w' (ClientCACerts E) (GrafanaCerts E))"
proof -
  from pass_steps [OF run] obtain u1 w1 u2 w2 hosts w3 where
    s1: "createCASecret E w mco False (ServerCACerts E) serverCACertifcateCN = (Returns (None, u1), w1)"
    and s2: "createCASecret E w1 mco False (ClientCACerts E) clientCACertificateCN
               = (Returns (None, u2), w2)"
    and s3: "createCertSecret E w2 mco u1 (ServerCerts E) True (ServerCertCN E) None (Some hosts) None
               = (Returns None, w3)"
    and s4: "createCertSecret E w3 mco u2 (GrafanaCerts E) False (GrafanaCN E) None None None
               = (Returns None, w')"
    by blast
  note wo1 = createCASecret_writes_only [OF s1]
  note wo2 = createCASecret_writes_only [OF s2]
  note wo3 = createCertSecret_writes_only [OF s3]
  note wo4 = createCertSecret_writes_only [OF s4]
  from names have ne: "ServerCACerts E \<noteq> ClientCACerts E" "ServerCACerts E \<noteq> ServerCerts E"
    "ServerCACerts E \<noteq> GrafanaCerts E" "ClientCACerts E \<noteq> ServerCerts E"
    "ClientCACerts E \<noteq> GrafanaCerts E" "ServerCerts E \<noteq> GrafanaCerts E"
    by auto
  have server: "renewed_under E w w' (ServerCACerts E) (ServerCerts E)"
    if absent: "objects w (ServerCACerts E) = None" and present: "objects w (ServerCerts E) = Some old"
    for old
  proof -
    have u1: "u1" by (rule createCASecret_absent_modified [OF absent s1])
    from createCASecret_created [OF s1 [unfolded eqTrueI [OF u1]]] obtain ca where
      o1: "objects w1 = (objects w)(ServerCACerts E \<mapsto> ca)"
      and r1: "requests w1 = requests w @ [Create (ServerCACerts E) ca]"
      by blast
    from writes_only_requests [OF wo2] obtain mid where r2: "requests w2 = requests w1 @ mid" ..
    from writes_only_requests [OF wo4] obtain post where r4: "requests w' = requests w3 @ post" ..
    have ca2: "objects w2 (ServerCACerts E) = Some ca"
      using writes_only_other [OF wo2, of "ServerCACerts E"] ne o1 by simp
    have old2: "objects w2 (ServerCerts E) = Some old"
      using writes_only_other [OF wo2, of "ServerCerts E"] ne o1 present by simp
    from forced_renewal_under [OF ca2 _ old2 _ s3 [unfolded eqTrueI [OF u1]]] ne
    obtain leaf b1 caCert rest b2 caKey template k der where
      f: "objects w3 (ServerCACerts E) = Some ca" "objects w3 (ServerCerts E) = Some leaf"
         "requests w3 = requests w2 @ [Update (ServerCerts E) leaf]"
         "ca_crt leaf = first_block E (tls_crt ca)"
         "fst (pem_Decode E (tls_crt ca)) = Some b1"
         "x509_ParseCertificates E (go_bytes (Bytes b1)) = Some (caCert # rest)"
         "fst (pem_Decode E (tls_key ca)) = Some b2"
         "x509_ParsePKCS1PrivateKey E (go_bytes (Bytes b2)) = Some caKey"
         "x509_CreateCertificate E template caCert (PublicKey k) caKey = Some der"
         "tls_crt leaf = certificate_pem E der"
      unfolding issuer_name_def by auto
    have o: "objects w' (ServerCACerts E) = Some ca" "objects w' (ServerCerts E) = Some leaf"
      using writes_only_other [OF wo4] ne f(1,2) by simp_all
    have r: "requests w' = requests w @ [] @ [Create (ServerCACerts E) ca] @ mid
               @ [Update (ServerCerts E) leaf] @ post"
      by (simp add: r4 f(3) r2 r1)
    show ?thesis
      by (rule renewed_underI [OF o r f(4-10)])
  qed
  have client: "renewed_under E w w' (ClientCACerts E) (GrafanaCerts E)"
    if absent: "objects w (ClientCACerts E) = None" and present: "objects w (GrafanaCerts E) = Some old"
    for old
  proof -
    have absent1: "objects w1 (ClientCACerts E) = None"
      using writes_only_other [OF wo1, of "ClientCACerts E"] ne absent by simp
    have u2: "u2" by (rule createCASecret_absent_modified [OF absent1 s2])
    from writes_only_requests [OF wo1] obtain pre where r1: "requests w1 = requests w @ pre" ..
    from createCASecret_created [OF s2 [unfolded eqTrueI [OF u2]]] obtain ca where
      o2: "objects w2 = (objects w1)(ClientCACerts E \<mapsto> ca)"
      and r2: "requests w2 = requests w1 @ [Create (ClientCACerts E) ca]"
      by blast
    from writes_only_requests [OF wo3] obtain mid where r3: "requests w3 = requests w2 @ mid" ..
    have ca3: "objects w3 (ClientCACerts E) = Some ca"
      using writes_only_other [OF wo3, of "ClientCACerts E"] ne o2 by simp
    have old3: "objects w3 (GrafanaCerts E) = Some old"
      using writes_only_other [OF wo3, of "GrafanaCerts E"]
        writes_only_other [OF wo1, of "GrafanaCerts E"] ne o2 present by simp
    from forced_renewal_under [OF ca3 _ old3 _ s4 [unfolded eqTrueI [OF u2]]] ne
    obtain leaf b1 caCert rest b2 caKey template k der where
      f: "objects w' (ClientCACerts E) = Some ca" "objects w' (GrafanaCerts E) = Some leaf"
         "requests w' = requests w3 @ [Update (GrafanaCerts E) leaf]"
         "ca_crt leaf = first_block E (tls_crt ca)"
         "fst (pem_Decode E (tls_crt ca)) = Some b1"
         "x509_ParseCertificates E (go_bytes (Bytes b1)) = Some (caCert # rest)"
         "fst (pem_Decode E (tls_key ca)) = Some b2"
         "x509_ParsePKCS1PrivateKey E (go_bytes (Bytes b2)) = Some caKey"
         "x509_CreateCertificate E template caCert (PublicKey k) caKey = Some der"
         "tls_crt leaf = certificate_pem E der"
      unfolding issuer_name_def by auto
    have r: "requests w' = requests w @ pre @ [Create (ClientCACerts E) ca] @ mid
               @ [Update (GrafanaCerts E) leaf] @ []"
      by (simp add: f(3) r3 r2 r1)
    show ?thesis
      by (rule renewed_underI [OF f(1,2) r f(4-10)])
  qed
  from server client show ?thesis by auto
qed

text \<open>The definitions that a run of a whole pass in the small environment unfolds.\<close>

lemmas toy_eval =
  CreateObservabilityCerts_def createCASecret_def createCertSecret_def client_Get_def
  createCACertificate_def caTemplate_def pemEncode_def SetControllerReference_def
  client_Create_def client_Update_def getHosts_def getCA_def driftCheck_def
  createCertificate_def createCertificate_dnsNames_def leafTemplate_def
  reslice_def append_slice_def set_first_def cap_def elements_def
  toy_def toy_CreateCertificate_def toy_Encode_def toy_ParseCertificates_def go_bytes_def
  Let_def AddBackupLabelToSecretObj_def

lemma toy_pass_result:
  "fst (CreateObservabilityCerts toy toy_stale_world (Some ''mco'') True) = Returns None"
  by (simp add: toy_eval toy_stale_world_def toy_renewed_leaf_def)

lemma toy_no_route_result:
  "fst (CreateObservabilityCerts toy_no_route empty_world (Some ''mco'') True)
     = Returns (Some HostError)"
  "map request_name (requests (snd (CreateObservabilityCerts toy_no_route empty_world (Some ''mco'') True)))
     = [''server-ca'', ''client-ca'']"
  by (simp_all add: toy_eval toy_no_route_def empty_world_def)

lemma createCASecret_returns:
  "createCASecret E w mco False name cn = (r, w1) \<Longrightarrow> \<exists>p. r = Returns p"
  unfolding createCASecret_def Let_def
  by (auto split: sum.splits option.splits prod.splits if_splits)

lemma writes_only_mono:
  "writes_only A w w' \<Longrightarrow> A \<subseteq> B \<Longrightarrow> writes_only B w w'"
  by (fastforce simp: writes_only_def)

text \<open>
  C7, as the code has it. A pass in which host discovery fails returns an error, and
  whatever it wrote concerns the two CA bundles only: no other bundle, so no leaf bundle, is
  created or updated.
\<close>

theorem CreateObservabilityCerts_host_discovery_fails:
  assumes hosts: "getHosts E ingressCtlCrdExists = Inl e"
    and run: "CreateObservabilityCerts E w (Some m) ingressCtlCrdExists = (r, w')"
  shows "(\<exists>e'. r = Returns (Some e'))
       \<and> (\<forall>n. n \<notin> {ServerCACerts E, ClientCACerts E} \<longrightarrow> objects w' n = objects w n)
       \<and> (\<exists>extra. requests w' = requests w @ extra
             \<and> (\<forall>q \<in> set extra. request_name q \<in> {ServerCACerts E, ClientCACerts E}))"
proof -
  obtain r1 w1 where s1: "createCASecret E w (Some m) False (ServerCACerts E) serverCACertifcateCN
                            = (r1, w1)"
    by (cases "createCASecret E w (Some m) False (ServerCACerts E) serverCACertifcateCN")
  obtain r2 w2 where s2: "createCASecret E w1 (Some m) False (ClientCACerts E) clientCACertificateCN
                            = (r2, w2)"
    by (cases "createCASecret E w1 (Some m) False (ClientCACerts E) clientCACertificateCN")
  from createCASecret_returns [OF s1] obtain e1 u1 where r1: "r1 = Returns (e1, u1)" by auto
  from createCASecret_returns [OF s2] obtain e2 u2 where r2: "r2 = Returns (e2, u2)" by auto
  have wo1: "writes_only {ServerCACerts E, ClientCACerts E} w w1"
    using createCASecret_writes_only [OF s1] by (rule writes_only_mono) simp
  have wo2: "writes_only {ServerCACerts E, ClientCACerts E} w w2"
    using writes_only_trans [OF createCASecret_writes_only [OF s1] createCASecret_writes_only [OF s2]]
    by (rule writes_only_mono) auto
  have "(\<exists>e'. r = Returns (Some e')) \<and> writes_only {ServerCACerts E, ClientCACerts E} w w'"
  proof (cases e1)
    case (Some a)
    with run s1 r1 wo1 show ?thesis by (auto simp: CreateObservabilityCerts_def)
  next
    case None
    show ?thesis
    proof (cases e2)
      case (Some a)
      with run s1 r1 None s2 r2 wo2 show ?thesis by (auto simp: CreateObservabilityCerts_def)
    next
      case n2: None
      with run s1 r1 None s2 r2 wo2 hosts show ?thesis by (auto simp: CreateObservabilityCerts_def)
    qed
  qed
  then show ?thesis by (simp add: writes_only_def)
qed

lemma toy_no_route_hosts: "getHosts toy_no_route True = Inl HostError"
  by (simp add: getHosts_def toy_no_route_def toy_def)

lemma toy_no_route_eq:
  "CreateObservabilityCerts toy_no_route empty_world (Some ''mco'') True
     = (Returns (Some HostError),
        snd (CreateObservabilityCerts toy_no_route empty_world (Some ''mco'') True))"
  using toy_no_route_result(1) by (simp add: prod_eq_iff)

theorem CreateObservabilityCerts_host_discovery_fails_witness:
  "getHosts toy_no_route True = Inl HostError
   \<and> objects (snd (CreateObservabilityCerts toy_no_route empty_world (Some ''mco'') True)) ''server''
       = objects empty_world ''server''
   \<and> objects (snd (CreateObservabilityCerts toy_no_route empty_world (Some ''mco'') True)) ''grafana''
       = objects empty_world ''grafana''"
  using CreateObservabilityCerts_host_discovery_fails [OF toy_no_route_hosts toy_no_route_eq]
    toy_no_route_hosts
  by (simp add: toy_no_route_def toy_def)

text \<open>
  Against C7 as stated: on an empty store the pass has created both CA bundles by the time
  host discovery fails.
\<close>

theorem CreateObservabilityCerts_writes_CA_before_hosts:
  "getHosts toy_no_route True = Inl HostError
   \<and> fst (CreateObservabilityCerts toy_no_route empty_world (Some ''mco'') True)
       = Returns (Some HostError)
   \<and> requests empty_world = []
   \<and> map request_name
        (requests (snd (CreateObservabilityCerts toy_no_route empty_world (Some ''mco'') True)))
       = [''server-ca'', ''client-ca'']"
  by (simp add: toy_no_route_hosts toy_no_route_result) (simp add: empty_world_def)

lemma toy_pass_eq:
  "CreateObservabilityCerts toy toy_stale_world (Some ''mco'') True
     = (Returns None, snd (CreateObservabilityCerts toy toy_stale_world (Some ''mco'') True))"
  using toy_pass_result by (simp add: prod_eq_iff)

lemma toy_names:
  "distinct [ServerCACerts toy, ClientCACerts toy, ServerCerts toy, GrafanaCerts toy]"
  by (simp add: toy_def)

theorem CreateObservabilityCerts_new_CA_renews_leaf_witness:
  "distinct [ServerCACerts toy, ClientCACerts toy, ServerCerts toy, GrafanaCerts toy]
   \<and> objects toy_stale_world (ServerCACerts toy) = None
   \<and> objects toy_stale_world (ServerCerts toy) = Some toy_renewed_leaf
   \<and> map_option (\<lambda>c. set (elements toy_hosts) \<subseteq> set (DNSNames c))
        (stored_certificate toy toy_renewed_leaf) = Some True
   \<and> renewed_under toy toy_stale_world
        (snd (CreateObservabilityCerts toy toy_stale_world (Some ''mco'') True))
        (ServerCACerts toy) (ServerCerts toy)"
proof -
  have a: "objects toy_stale_world (ServerCACerts toy) = None"
    "objects toy_stale_world (ServerCerts toy) = Some toy_renewed_leaf"
    by (simp_all add: toy_stale_world_def toy_def)
  have c: "map_option (\<lambda>c. set (elements toy_hosts) \<subseteq> set (DNSNames c))
        (stored_certificate toy toy_renewed_leaf) = Some True"
    by (simp add: stored_certificate_def toy_def toy_renewed_leaf_def toy_hosts_def elements_def
          toy_name_def)
  from CreateObservabilityCerts_new_CA_renews_leaf [OF toy_pass_eq toy_names] a
  have "renewed_under toy toy_stale_world
        (snd (CreateObservabilityCerts toy toy_stale_world (Some ''mco'') True))
        (ServerCACerts toy) (ServerCerts toy)"
    by simp
  with a c toy_names show ?thesis by simp
qed

text \<open>
  Against C10 as stated: the pass creates both CA bundles, host discovery fails, and the
  pass ends with the server leaf untouched, still holding the earlier CA.
\<close>

theorem CreateObservabilityCerts_abort_leaves_stale_leaf:
  "objects toy_orphan_world ''server-ca'' = None
   \<and> objects toy_orphan_world ''server'' = Some toy_leaf
   \<and> fst (CreateObservabilityCerts toy_no_route toy_orphan_world (Some ''mco'') True)
       = Returns (Some HostError)
   \<and> map request_name
        (requests (snd (CreateObservabilityCerts toy_no_route toy_orphan_world (Some ''mco'') True)))
       = [''server-ca'', ''client-ca'']
   \<and> map_option ca_crt
        (objects (snd (CreateObservabilityCerts toy_no_route toy_orphan_world (Some ''mco'') True))
           ''server-ca'') = Some [1, 2, 7, 150]
   \<and> objects (snd (CreateObservabilityCerts toy_no_route toy_orphan_world (Some ''mco'') True))
        ''server'' = Some toy_leaf
   \<and> ca_crt toy_leaf = [1, 2, 5, 200]"
  by (simp add: toy_eval toy_no_route_def toy_orphan_world_def) (simp add: toy_leaf_def)

end
